theory Spec2Isabelle
  imports Complex_Main "HOL-Library.Log_Nat" "HOL-Library.Multiset"
begin

section \<open>JavaScript values\<close>

text \<open>
  The front end is JavaScript. A number is an IEEE 754 double: a finite value (kept as the
  rational it denotes), an infinity or NaN. Negative zero is identified with zero.
  A string is a sequence of code units; the model keeps the code units below 256.
\<close>

datatype number = Finite rat | PosInfinity | NegInfinity | NaN

datatype jsval =
    JUndefined
  | JNull
  | JBool bool
  | JNum number
  | JStr string
  | JArr "jsval list"
  | JObj "(string \<times> jsval) list"

datatype js_error =
    TypeError
  | SyntaxError
  | FetchFailed
  | HttpError nat string
  | InvalidChild

text \<open>ToBoolean: what \<open>!x\<close>, \<open>x || y\<close> and \<open>x && y\<close> test.\<close>

fun truthy :: "jsval \<Rightarrow> bool" where
  "truthy JUndefined = False"
| "truthy JNull = False"
| "truthy (JBool b) = b"
| "truthy (JNum (Finite q)) = (q \<noteq> 0)"
| "truthy (JNum PosInfinity) = True"
| "truthy (JNum NegInfinity) = True"
| "truthy (JNum NaN) = False"
| "truthy (JStr s) = (s \<noteq> [])"
| "truthy (JArr xs) = True"
| "truthy (JObj fs) = True"

definition js_or :: "jsval \<Rightarrow> jsval \<Rightarrow> jsval" where
  "js_or a b = (if truthy a then a else b)"

text \<open>
  What React accepts in a child position of JSX, as \<open>{value}\<close>: a string or a number
  (shown as text), a boolean, \<open>null\<close> or \<open>undefined\<close> (nothing is shown), and an array
  of such children. A plain object makes the render throw (\<open>InvalidChild\<close>), which
  unmounts the page.
\<close>

fun valid_child :: "jsval \<Rightarrow> bool" where
  "valid_child (JObj fs) = False"
| "valid_child (JArr xs) = list_all valid_child xs"
| "valid_child v = True"

text \<open>
  Reading a property \<open>data.k\<close> of a parsed JSON value: a TypeError on \<open>null\<close> and
  \<open>undefined\<close>, the own property of an object, and \<open>undefined\<close> otherwise (the names
  read by this program, \<open>response\<close>, \<open>intent\<close>, \<open>confidence\<close>, \<open>transcript\<close> and
  \<open>audio_url\<close>, are not properties of strings, numbers, booleans or arrays).
\<close>

fun get_prop :: "jsval \<Rightarrow> string \<Rightarrow> js_error + jsval" where
  "get_prop JUndefined k = Inl TypeError"
| "get_prop JNull k = Inl TypeError"
| "get_prop (JObj fs) k = Inr (case map_of fs k of None \<Rightarrow> JUndefined | Some v \<Rightarrow> v)"
| "get_prop v k = Inr JUndefined"

text \<open>\<open>String.prototype.trim\<close>: white space and line terminators, among the code units kept.\<close>

definition is_white_space :: "char \<Rightarrow> bool" where
  "is_white_space c = ((of_char c :: nat) \<in> {9, 10, 11, 12, 13, 32, 160})"

definition trim :: "string \<Rightarrow> string" where
  "trim s = rev (dropWhile is_white_space (rev (dropWhile is_white_space s)))"

text \<open>\<open>toString\<close> of a non-negative integer (\<open>Date.now().toString()\<close>, a template literal).\<close>

definition digit_char :: "nat \<Rightarrow> char" where
  "digit_char d = char_of (48 + d)"

fun toString_nat :: "nat \<Rightarrow> string" where
  "toString_nat n =
     (if n < 10 then [digit_char n] else toString_nat (n div 10) @ [digit_char (n mod 10)])"

declare toString_nat.simps [simp del]

section \<open>The environment: requests, replies and other effects\<close>

datatype form_value = FormBlob "string list" string string | FormText string

datatype body =
    NoBody
  | JsonBody jsval
  | FormBody "(string \<times> form_value) list"

record request =
  url :: string
  http_method :: string
  headers :: "(string \<times> string) list"
  body :: body

text \<open>
  What \<open>fetch\<close> gives back: the promise rejects, or it resolves to a response whose
  \<open>json()\<close> is the parsed body (\<open>None\<close> when the body is not JSON and \<open>json()\<close> rejects).
\<close>

record 'a http_response =
  ok :: bool
  status :: nat
  statusText :: string
  json :: "'a option"

datatype 'a fetch_result = Rejected | Resolved "'a http_response"

text \<open>
  Everything a handler does besides updating component state, in the order it does it.
  An exception no handler catches is an effect too.
\<close>

datatype effect =
    Fetch request
  | ToastSuccess string
  | ToastError string
  | ConsoleError string
  | SetTimeout nat
  | AudioPause
  | AudioPlay jsval
  | RemoveModal
  | Uncaught js_error

text \<open>The body of a \<open>try\<close> up to \<open>await response.json()\<close>, shared by the chat and voice turns.\<close>

definition await_json :: "'a fetch_result \<Rightarrow> js_error + 'a" where
  "await_json reply =
     (case reply of
        Rejected \<Rightarrow> Inl FetchFailed
      | Resolved r \<Rightarrow>
          if \<not> ok r then Inl (HttpError (status r) (statusText r))
          else (case json r of None \<Rightarrow> Inl SyntaxError | Some data \<Rightarrow> Inr data))"

section \<open>App: session id and health check\<close>

record app_state =
  activeTab :: string
  sessionId :: string
  isConnected :: bool
  systemStatus :: string

text \<open>
  The initial state. \<open>now\<close> is \<open>Date.now()\<close> and \<open>rnd\<close> is \<open>Math.random().toString(36)\<close>
  at the first render; \<open>substr(2, 9)\<close> keeps nine code units from index 2.
\<close>

definition App_init :: "nat \<Rightarrow> string \<Rightarrow> app_state" where
  "App_init now rnd =
     \<lparr> activeTab = ''chat'',
       sessionId = ''session_'' @ toString_nat now @ ''_'' @ take 9 (drop 2 rnd),
       isConnected = False,
       systemStatus = ''checking'' \<rparr>"

definition health_request :: request where
  "health_request = \<lparr> url = ''/api/health'', http_method = ''GET'', headers = [], body = NoBody \<rparr>"

definition checkSystemHealth :: "'a fetch_result \<Rightarrow> app_state \<Rightarrow> app_state \<times> effect list" where
  "checkSystemHealth reply a =
     (case reply of
        Resolved r \<Rightarrow>
          if ok r then (a\<lparr>isConnected := True, systemStatus := ''healthy''\<rparr>, [Fetch health_request])
          else (a\<lparr>isConnected := False, systemStatus := ''error''\<rparr>, [Fetch health_request])
      | Rejected \<Rightarrow>
          (a\<lparr>isConnected := False, systemStatus := ''error''\<rparr>,
           [Fetch health_request, ConsoleError ''Health check failed:'']))"

section \<open>ChatInterface\<close>

text \<open>
  A chat message. \<open>intent\<close> and \<open>confidence\<close> are \<open>undefined\<close> on the messages that do
  not set them; \<open>isError\<close> is only ever set to \<open>true\<close> and only ever tested, so a missing
  \<open>isError\<close> is \<open>False\<close>.
\<close>

record message =
  id_m :: string
  type_m :: string
  content :: jsval
  timestamp :: nat
  intent :: jsval
  confidence :: jsval
  isError :: bool

record chat_state =
  messages :: "message list"
  inputText :: string
  isLoading :: bool
  isTyping :: bool

definition welcomeMessage :: "nat \<Rightarrow> message" where
  "welcomeMessage now =
     \<lparr> id_m = ''welcome'', type_m = ''bot'',
       content = JStr ''Hello! I'm your AI admission assistant. I can help you with information about admission requirements, deadlines, tuition, programs, and more. What would you like to know?'',
       timestamp = now, intent = JStr ''greeting'', confidence = JNum (Finite 1), isError = False \<rparr>"

definition chat_mount :: "nat \<Rightarrow> chat_state" where
  "chat_mount now =
     \<lparr> messages = [welcomeMessage now], inputText = [], isLoading = False, isTyping = False \<rparr>"

text \<open>The guard of \<open>sendMessage\<close>, which is also the \<open>disabled\<close> attribute of the send button.\<close>

definition send_disabled :: "app_state \<Rightarrow> chat_state \<Rightarrow> bool" where
  "send_disabled a st = (trim (inputText st) = [] \<or> isLoading st \<or> \<not> isConnected a)"

definition userMessage :: "nat \<Rightarrow> chat_state \<Rightarrow> message" where
  "userMessage now st =
     \<lparr> id_m = toString_nat now, type_m = ''user'', content = JStr (trim (inputText st)),
       timestamp = now, intent = JUndefined, confidence = JUndefined, isError = False \<rparr>"

definition chat_request :: "app_state \<Rightarrow> message \<Rightarrow> request" where
  "chat_request a um =
     \<lparr> url = ''/api/chat'', http_method = ''POST'',
       headers = [(''Content-Type'', ''application/json'')],
       body = JsonBody (JObj [(''message'', content um), (''session_id'', JStr (sessionId a))]) \<rparr>"

definition errorMessage :: "nat \<Rightarrow> message" where
  "errorMessage now =
     \<lparr> id_m = toString_nat (now + 1), type_m = ''bot'',
       content = JStr ''I'm sorry, I'm having trouble connecting right now. Please try again or contact our admissions office directly at (555) 123-4567.'',
       timestamp = now, intent = JUndefined, confidence = JUndefined, isError = True \<rparr>"

text \<open>
  The callback of \<open>setTimeout\<close> in \<open>sendMessage\<close>. It runs outside the \<open>try\<close>, so a reply
  whose body is \<open>null\<close> raises a TypeError nobody catches and leaves the state as it was.
\<close>

definition botMessage :: "nat \<Rightarrow> jsval \<Rightarrow> js_error + message" where
  "botMessage now data =
     (case get_prop data ''response'' of
        Inl e \<Rightarrow> Inl e
      | Inr r \<Rightarrow>
          (case get_prop data ''intent'' of
             Inl e \<Rightarrow> Inl e
           | Inr i \<Rightarrow>
               (case get_prop data ''confidence'' of
                  Inl e \<Rightarrow> Inl e
                | Inr c \<Rightarrow>
                    Inr \<lparr> id_m = toString_nat (now + 1), type_m = ''bot'', content = r,
                          timestamp = now, intent = i, confidence = c, isError = False \<rparr>)))"

definition sendMessage_timeout :: "nat \<Rightarrow> jsval \<Rightarrow> chat_state \<Rightarrow> chat_state \<times> effect list" where
  "sendMessage_timeout now data st =
     (case botMessage now data of
        Inl e \<Rightarrow> (st, [Uncaught e])
      | Inr bm \<Rightarrow> (st\<lparr>messages := messages st @ [bm], isTyping := False, isLoading := False\<rparr>, []))"

text \<open>
  What one call of \<open>sendMessage\<close> meets: the clock when it starts, the outcome of its
  \<open>fetch\<close>, and the clock when the reply (or the failure) is handled.
\<close>

record chat_env =
  now_start :: nat
  reply_c :: "jsval fetch_result"
  now_end :: nat

definition sendMessage :: "app_state \<Rightarrow> chat_env \<Rightarrow> chat_state \<Rightarrow> chat_state \<times> effect list" where
  "sendMessage a env st =
     (if send_disabled a st then (st, [])
      else
        let um = userMessage (now_start env) st;
            st1 = st\<lparr>messages := messages st @ [um], inputText := [],
                     isLoading := True, isTyping := True\<rparr>
        in case await_json (reply_c env) of
             Inr data \<Rightarrow>
               (let (st2, effs) = sendMessage_timeout (now_end env) data st1
                in (st2, [Fetch (chat_request a um), SetTimeout 1000] @ effs))
           | Inl e \<Rightarrow>
               (st1\<lparr>messages := messages st1 @ [errorMessage (now_end env)],
                     isTyping := False, isLoading := False\<rparr>,
                [Fetch (chat_request a um), ConsoleError ''Error sending message:'',
                 ToastError ''Failed to send message. Please try again.'']))"

text \<open>The requests among the effects of a handler.\<close>

fun requests :: "effect list \<Rightarrow> request list" where
  "requests [] = []"
| "requests (Fetch r # es) = r # requests es"
| "requests (e # es) = requests es"

text \<open>
  \<open>sendFeedback\<close>. The reply of the \<open>fetch\<close> is awaited and dropped: only a rejection is
  told apart, and the messages are not touched.
\<close>

definition feedback_request :: "app_state \<Rightarrow> string \<Rightarrow> string \<Rightarrow> request" where
  "feedback_request a messageId type =
     \<lparr> url = ''/api/feedback'', http_method = ''POST'',
       headers = [(''Content-Type'', ''application/json'')],
       body = JsonBody (JObj [(''session_id'', JStr (sessionId a)),
                              (''message_id'', JStr messageId),
                              (''feedback_type'', JStr type)]) \<rparr>"

definition sendFeedback ::
  "app_state \<Rightarrow> string \<Rightarrow> string \<Rightarrow> jsval fetch_result \<Rightarrow> chat_state \<Rightarrow> chat_state \<times> effect list" where
  "sendFeedback a messageId type reply st =
     (case reply of
        Resolved r \<Rightarrow>
          (st, [Fetch (feedback_request a messageId type),
                ToastSuccess (''Thank you for your ''
                              @ (if type = ''positive'' then ''positive'' else ''negative'')
                              @ '' feedback!'')])
      | Rejected \<Rightarrow>
          (st, [Fetch (feedback_request a messageId type), ConsoleError ''Error sending feedback:'']))"

text \<open>
  The buttons rendered under a message, in order: copy, thumbs up and thumbs down under a
  bot message that is not an error, retry under an error message.
\<close>

datatype chat_action =
    CopyMessage jsval
  | SendFeedback string string
  | RetryMessage nat

definition message_actions :: "nat \<Rightarrow> message \<Rightarrow> chat_action list" where
  "message_actions index m =
     (if type_m m = ''bot'' \<and> \<not> isError m
      then [CopyMessage (content m), SendFeedback (id_m m) ''positive'', SendFeedback (id_m m) ''negative'']
      else [])
     @ (if isError m then [RetryMessage index] else [])"

definition retryMessage :: "nat \<Rightarrow> chat_state \<Rightarrow> chat_state" where
  "retryMessage messageIndex st =
     (if 0 < messageIndex \<and> messageIndex - 1 < length (messages st)
         \<and> type_m (messages st ! (messageIndex - 1)) = ''user''
      then st\<lparr>inputText := (case content (messages st ! (messageIndex - 1)) of JStr s \<Rightarrow> s | _ \<Rightarrow> []),
              messages := take messageIndex (messages st)\<rparr>
      else st)"

definition clearChat :: "chat_state \<Rightarrow> chat_state \<times> effect list" where
  "clearChat st = (st\<lparr>messages := take 1 (messages st)\<rparr>, [ToastSuccess ''Chat cleared''])"

definition run_chat_action ::
  "app_state \<Rightarrow> chat_action \<Rightarrow> jsval fetch_result \<Rightarrow> chat_state \<Rightarrow> chat_state \<times> effect list" where
  "run_chat_action a act reply st =
     (case act of
        CopyMessage c \<Rightarrow> (st, [ToastSuccess ''Message copied to clipboard''])
      | SendFeedback messageId type \<Rightarrow> sendFeedback a messageId type reply st
      | RetryMessage i \<Rightarrow> (retryMessage i st, []))"

text \<open>
  \<open>window.sendFollowUp\<close>, installed by \<open>requestFollowUp\<close>. The two values are what the
  inputs of the modal hold when Send is clicked.
\<close>

record followup_form =
  email :: string
  name_f :: string

definition followup_request :: "app_state \<Rightarrow> followup_form \<Rightarrow> request" where
  "followup_request a f =
     \<lparr> url = ''/api/followup'', http_method = ''POST'',
       headers = [(''Content-Type'', ''application/json'')],
       body = JsonBody (JObj [(''email'', JStr (email f)),
                              (''name'', JStr (name_f f)),
                              (''session_id'', JStr (sessionId a)),
                              (''inquiry_type'', JStr ''general'')]) \<rparr>"

definition sendFollowUp :: "app_state \<Rightarrow> followup_form \<Rightarrow> jsval fetch_result \<Rightarrow> effect list" where
  "sendFollowUp a f reply =
     (if email f = [] \<or> name_f f = [] then [ToastError ''Please fill in all fields'']
      else
        (case reply of
           Resolved r \<Rightarrow>
             [Fetch (followup_request a f),
              ToastSuccess ''Follow-up email will be sent shortly!'', RemoveModal]
         | Rejected \<Rightarrow>
             [Fetch (followup_request a f), ConsoleError ''Error requesting follow-up:'',
              ToastError ''Failed to send follow-up request'']))"

section \<open>VoiceInterface\<close>

record conversation =
  id_c :: string
  timestamp_c :: nat
  transcript :: jsval
  response :: jsval
  audioUrl :: jsval
  intent_c :: jsval
  confidence_c :: jsval
  recordingDuration :: nat

text \<open>
  The state of the component, with the chunks held by \<open>audioChunksRef\<close> and whether
  \<open>mediaRecorderRef\<close> holds a recorder. \<open>currentAudio\<close> is the address the playing
  \<open>Audio\<close> element was made for.
\<close>

record voice_state =
  isRecording :: bool
  isProcessing :: bool
  isPlaying :: bool
  isMuted :: bool
  recordingTime :: nat
  conversations :: "conversation list"
  currentAudio :: "jsval option"
  audioChunks :: "string list"
  mediaRecorder :: bool

definition voice_mount :: voice_state where
  "voice_mount =
     \<lparr> isRecording = False, isProcessing = False, isPlaying = False, isMuted = False,
       recordingTime = 0, conversations = [], currentAudio = None, audioChunks = [],
       mediaRecorder = False \<rparr>"

text \<open>
  \<open>playAudio\<close>, as far as its \<open>await audio.play()\<close> and the \<open>catch\<close> behind it.
  \<open>seen\<close> is the render the calling closure was made in: \<open>currentAudio\<close> is read there,
  while the state updates go to the state of the moment.
\<close>

definition playAudio :: "voice_state \<Rightarrow> bool \<Rightarrow> jsval \<Rightarrow> voice_state \<Rightarrow> voice_state \<times> effect list \<times> effect list" where
  "playAudio seen play_ok u st =
     (let pause = (if currentAudio seen \<noteq> None then [AudioPause] else []);
          st1 = st\<lparr>currentAudio := Some u\<rparr>
      in if play_ok then (st1, pause @ [AudioPlay u], [])
         else (st1\<lparr>isPlaying := False\<rparr>, pause @ [AudioPlay u],
               [ConsoleError ''Error playing audio:'', ToastError ''Failed to play audio'']))"

definition pauseAudio :: "voice_state \<Rightarrow> voice_state \<times> effect list" where
  "pauseAudio st =
     (if currentAudio st \<noteq> None then (st\<lparr>isPlaying := False\<rparr>, [AudioPause]) else (st, []))"

text \<open>The handlers \<open>playAudio\<close> puts on the \<open>Audio\<close> element.\<close>

definition onloadstart :: "voice_state \<Rightarrow> voice_state" where
  "onloadstart st = st\<lparr>isPlaying := True\<rparr>"

definition onended :: "voice_state \<Rightarrow> voice_state" where
  "onended st = st\<lparr>isPlaying := False, currentAudio := None\<rparr>"

definition onerror :: "voice_state \<Rightarrow> voice_state \<times> effect list" where
  "onerror st =
     (st\<lparr>isPlaying := False, currentAudio := None\<rparr>, [ToastError ''Failed to play audio response''])"

record voice_env =
  now_v :: nat
  reply_v :: "jsval fetch_result"
  play_ok :: bool

definition voice_request :: "app_state \<Rightarrow> string list \<Rightarrow> request" where
  "voice_request a chunks =
     \<lparr> url = ''/api/voice'', http_method = ''POST'', headers = [],
       body = FormBody [(''audio'', FormBlob chunks ''audio/webm'' ''recording.webm''),
                        (''session_id'', FormText (sessionId a))] \<rparr>"

text \<open>The conversation entry built from the parsed reply; a TypeError when the reply is \<open>null\<close>.\<close>

definition conversation_of :: "voice_state \<Rightarrow> nat \<Rightarrow> jsval \<Rightarrow> js_error + conversation" where
  "conversation_of seen now data =
     (case get_prop data ''transcript'' of
        Inl e \<Rightarrow> Inl e
      | Inr t \<Rightarrow>
     (case get_prop data ''response'' of
        Inl e \<Rightarrow> Inl e
      | Inr r \<Rightarrow>
     (case get_prop data ''audio_url'' of
        Inl e \<Rightarrow> Inl e
      | Inr u \<Rightarrow>
     (case get_prop data ''intent'' of
        Inl e \<Rightarrow> Inl e
      | Inr i \<Rightarrow>
     (case get_prop data ''confidence'' of
        Inl e \<Rightarrow> Inl e
      | Inr c \<Rightarrow>
          Inr \<lparr> id_c = toString_nat now, timestamp_c = now, transcript = t, response = r,
                audioUrl = u, intent_c = i, confidence_c = c,
                recordingDuration = recordingTime seen \<rparr>)))))"

text \<open>
  \<open>processRecording\<close>, the \<open>onstop\<close> handler of the recorder. It is the closure of the
  render in which \<open>startRecording\<close> ran, so \<open>isMuted\<close> and \<open>recordingTime\<close> are read from
  that render (\<open>seen\<close>); \<open>audioChunksRef\<close> is read live.
\<close>

definition processRecording ::
  "app_state \<Rightarrow> voice_state \<Rightarrow> voice_env \<Rightarrow> voice_state \<Rightarrow> voice_state \<times> effect list" where
  "processRecording a seen env st =
     (if audioChunks st = [] then (st, [ToastError ''No audio recorded''])
      else
        let req = voice_request a (audioChunks st);
            failed = (st\<lparr>isProcessing := False\<rparr>,
                      [Fetch req, ConsoleError ''Error processing recording:'',
                       ToastError ''Failed to process voice message''])
        in case await_json (reply_v env) of
             Inl e \<Rightarrow> failed
           | Inr data \<Rightarrow>
               (case conversation_of seen (now_v env) data of
                  Inl e \<Rightarrow> failed
                | Inr c \<Rightarrow>
                    let st1 = st\<lparr>conversations := conversations st @ [c], recordingTime := 0\<rparr>
                    in if \<not> isMuted seen \<and> truthy (audioUrl c)
                       then
                         (let (st2, started, later) = playAudio seen (play_ok env) (audioUrl c) st1
                          in (st2\<lparr>isProcessing := False\<rparr>,
                              [Fetch req] @ started
                              @ [ToastSuccess ''Voice message processed successfully''] @ later))
                       else
                         (st1\<lparr>isProcessing := False\<rparr>,
                          [Fetch req, ToastSuccess ''Voice message processed successfully''])))"

text \<open>
  What one entry of the conversation list shows. Three values of the entry stand in child
  positions: \<open>transcript || 'Could not transcribe audio'\<close>, the intent (inside the badge,
  which is there when intent and confidence are both truthy; the confidence is shown as the
  number \<open>Math.round(confidence * 100)\<close>) and the response. The render throws when one of
  them is not a valid child. The download and play buttons are there when \<open>audioUrl\<close> is
  truthy. Where a badge or the buttons are absent, the value in the child position is the
  falsy operand of \<open>&&\<close>, which is never an object, so these positions cannot throw.
\<close>

record conversation_view =
  shown_transcript :: jsval
  shown_response :: jsval
  audio_controls :: bool
  intent_badge :: bool

definition render_conversation :: "conversation \<Rightarrow> js_error + conversation_view" where
  "render_conversation c =
     (let shown = js_or (transcript c) (JStr ''Could not transcribe audio'');
          badge = (truthy (intent_c c) \<and> truthy (confidence_c c))
      in if \<not> valid_child shown then Inl InvalidChild
         else if badge \<and> \<not> valid_child (intent_c c) then Inl InvalidChild
         else if \<not> valid_child (response c) then Inl InvalidChild
         else Inr \<lparr> shown_transcript = shown,
                    shown_response = response c,
                    audio_controls = truthy (audioUrl c),
                    intent_badge = badge \<rparr>)"

definition startRecording :: "bool \<Rightarrow> voice_state \<Rightarrow> voice_state \<times> effect list" where
  "startRecording media_ok st =
     (if media_ok
      then (st\<lparr>audioChunks := [], mediaRecorder := True, isRecording := True, recordingTime := 0\<rparr>,
            [ToastSuccess ''Recording started''])
      else (st, [ConsoleError ''Error starting recording:'',
                 ToastError ''Failed to start recording. Please check microphone permissions.'']))"

definition ondataavailable :: "string \<Rightarrow> voice_state \<Rightarrow> voice_state" where
  "ondataavailable chunk st =
     (if length chunk > 0 then st\<lparr>audioChunks := audioChunks st @ [chunk]\<rparr> else st)"

text \<open>
  \<open>stopRecording\<close> stops the recorder, whose \<open>stop\<close> event then runs the
  \<open>processRecording\<close> installed by \<open>startRecording\<close>.
\<close>

definition stopRecording ::
  "app_state \<Rightarrow> voice_state \<Rightarrow> voice_env \<Rightarrow> voice_state \<Rightarrow> voice_state \<times> effect list" where
  "stopRecording a seen env st =
     (if mediaRecorder st \<and> isRecording st
      then processRecording a seen env (st\<lparr>isRecording := False\<rparr>)
      else (st, []))"

definition clearConversations :: "voice_state \<Rightarrow> voice_state \<times> effect list" where
  "clearConversations st =
     (if currentAudio st \<noteq> None
      then (st\<lparr>conversations := [], currentAudio := None\<rparr>,
            [AudioPause, ToastSuccess ''Voice conversations cleared''])
      else (st\<lparr>conversations := []\<rparr>, [ToastSuccess ''Voice conversations cleared'']))"

section \<open>Double-precision arithmetic\<close>

text \<open>
  \<open>fl x\<close> is the double nearest to the rational \<open>x\<close>, ties to the even significand: 53
  significant bits, exponents from \<open>-1022\<close> (below it the spacing stays \<open>2^-1074\<close>), and
  an infinity from \<open>2^1024\<close> on. \<open>/\<close> and \<open>*\<close> of JavaScript round the exact result this way.
\<close>

definition pow2 :: "int \<Rightarrow> rat" where
  "pow2 e = (if 0 \<le> e then 2 ^ nat e else 1 / 2 ^ nat (- e))"

text \<open>For \<open>x > 0\<close>, the \<open>e\<close> with \<open>2^e \<le> x < 2^(e+1)\<close>.\<close>

definition floor_log2 :: "rat \<Rightarrow> int" where
  "floor_log2 x =
     (let (a, b) = quotient_of x;
          d = int (floorlog 2 (nat a)) - int (floorlog 2 (nat b))
      in if pow2 d \<le> x then d else d - 1)"

definition round_half_even :: "rat \<Rightarrow> int" where
  "round_half_even q =
     (let f = \<lfloor>q\<rfloor>; r = q - of_int f
      in if r < 1 / 2 then f else if 1 / 2 < r then f + 1 else if even f then f else f + 1)"

definition fl_pos :: "rat \<Rightarrow> number" where
  "fl_pos x =
     (let e = max (floor_log2 x) (- 1022);
          u = pow2 (e - 52);
          y = of_int (round_half_even (x / u)) * u
      in if pow2 1024 \<le> y then PosInfinity else Finite y)"

definition fl :: "rat \<Rightarrow> number" where
  "fl x =
     (if x = 0 then Finite 0
      else if 0 < x then fl_pos x
      else (case fl_pos (- x) of Finite y \<Rightarrow> Finite (- y) | _ \<Rightarrow> NegInfinity))"

fun js_div :: "number \<Rightarrow> number \<Rightarrow> number" where
  "js_div NaN y = NaN"
| "js_div x NaN = NaN"
| "js_div (Finite a) (Finite b) =
     (if b = 0 then (if a = 0 then NaN else if 0 < a then PosInfinity else NegInfinity)
      else fl (a / b))"
| "js_div (Finite a) y = Finite 0"
| "js_div PosInfinity (Finite b) = (if 0 \<le> b then PosInfinity else NegInfinity)"
| "js_div NegInfinity (Finite b) = (if 0 \<le> b then NegInfinity else PosInfinity)"
| "js_div x y = NaN"

fun js_mul :: "number \<Rightarrow> number \<Rightarrow> number" where
  "js_mul NaN y = NaN"
| "js_mul x NaN = NaN"
| "js_mul (Finite a) (Finite b) = fl (a * b)"
| "js_mul (Finite a) PosInfinity = (if a = 0 then NaN else if 0 < a then PosInfinity else NegInfinity)"
| "js_mul (Finite a) NegInfinity = (if a = 0 then NaN else if 0 < a then NegInfinity else PosInfinity)"
| "js_mul PosInfinity (Finite b) = (if b = 0 then NaN else if 0 < b then PosInfinity else NegInfinity)"
| "js_mul NegInfinity (Finite b) = (if b = 0 then NaN else if 0 < b then NegInfinity else PosInfinity)"
| "js_mul PosInfinity PosInfinity = PosInfinity"
| "js_mul NegInfinity NegInfinity = PosInfinity"
| "js_mul x y = NegInfinity"

fun js_sub :: "number \<Rightarrow> number \<Rightarrow> number" where
  "js_sub NaN y = NaN"
| "js_sub x NaN = NaN"
| "js_sub (Finite a) (Finite b) = fl (a - b)"
| "js_sub (Finite a) PosInfinity = NegInfinity"
| "js_sub (Finite a) NegInfinity = PosInfinity"
| "js_sub PosInfinity PosInfinity = NaN"
| "js_sub NegInfinity NegInfinity = NaN"
| "js_sub PosInfinity y = PosInfinity"
| "js_sub NegInfinity y = NegInfinity"

text \<open>\<open>Math.round\<close>: the nearest integer, the upper one at a tie; exact on every double.\<close>

fun Math_round :: "number \<Rightarrow> number" where
  "Math_round (Finite x) = Finite (of_int \<lfloor>x + 1 / 2\<rfloor>)"
| "Math_round x = x"

text \<open>\<open>x > 0\<close> on numbers, as a sort comparator's result is tested.\<close>

fun is_positive :: "number \<Rightarrow> bool" where
  "is_positive (Finite x) = (0 < x)"
| "is_positive PosInfinity = True"
| "is_positive x = False"

text \<open>
  \<open>Array.prototype.sort\<close> with a comparator. The sort is stable; \<open>later x y\<close> says that
  the comparator, called on \<open>x\<close> and \<open>y\<close>, is positive, so that \<open>x\<close> goes behind \<open>y\<close>.
\<close>

fun insert_by :: "('a \<Rightarrow> 'a \<Rightarrow> bool) \<Rightarrow> 'a \<Rightarrow> 'a list \<Rightarrow> 'a list" where
  "insert_by later x [] = [x]"
| "insert_by later x (y # ys) = (if later x y then y # insert_by later x ys else x # y # ys)"

definition js_sort :: "('a \<Rightarrow> 'a \<Rightarrow> bool) \<Rightarrow> 'a list \<Rightarrow> 'a list" where
  "js_sort later xs = foldr (insert_by later) xs []"

section \<open>Dates\<close>

text \<open>
  A calendar day is its number of days since 1970-01-01 in local time, so that
  \<open>subDays(d, i)\<close> is \<open>d - i\<close>. \<open>format\<close> of date-fns with the patterns \<open>yyyy-MM-dd\<close> and
  \<open>MMM dd\<close> writes the Gregorian date of the day.
\<close>

definition civil_from_days :: "int \<Rightarrow> int \<times> nat \<times> nat" where
  "civil_from_days day =
     (let z = day + 719468;
          era = z div 146097;
          doe = z - era * 146097;
          yoe = (doe - doe div 1460 + doe div 36524 - doe div 146096) div 365;
          doy = doe - (365 * yoe + yoe div 4 - yoe div 100);
          mp = (5 * doy + 2) div 153;
          d = doy - (153 * mp + 2) div 5 + 1;
          m = (if mp < 10 then mp + 3 else mp - 9);
          y = yoe + era * 400
      in (if m \<le> 2 then y + 1 else y, nat m, nat d))"

definition addLeadingZeros :: "nat \<Rightarrow> nat \<Rightarrow> string" where
  "addLeadingZeros n len = replicate (len - length (toString_nat n)) (CHR ''0'') @ toString_nat n"

definition month_names :: "string list" where
  "month_names = [''Jan'', ''Feb'', ''Mar'', ''Apr'', ''May'', ''Jun'',
                  ''Jul'', ''Aug'', ''Sep'', ''Oct'', ''Nov'', ''Dec'']"

definition format_yyyy_MM_dd :: "int \<Rightarrow> string" where
  "format_yyyy_MM_dd day =
     (case civil_from_days day of
        (y, m, d) \<Rightarrow>
          addLeadingZeros (nat (if 0 < y then y else 1 - y)) 4 @ ''-''
          @ addLeadingZeros m 2 @ ''-'' @ addLeadingZeros d 2)"

definition format_MMM_dd :: "int \<Rightarrow> string" where
  "format_MMM_dd day =
     (case civil_from_days day of
        (y, m, d) \<Rightarrow> month_names ! (m - 1) @ '' '' @ addLeadingZeros d 2)"

section \<open>Analytics\<close>

text \<open>
  The rollup object the dashboard reads (\<open>data.analytics\<close>). A field the payload lacks is
  \<open>None\<close>. Counts are non-negative integers; a distribution is the list of its entries in
  the order \<open>Object.entries\<close> gives them, with distinct keys.
\<close>

record analytics =
  total_interactions :: "nat option"
  unique_sessions :: "nat option"
  average_processing_time :: "number option"
  intent_distribution :: "(string \<times> nat) list option"
  channel_distribution :: "(string \<times> nat) list option"
  daily_interactions :: "(string \<times> nat) list option"
  average_confidence :: "(string \<times> number) list option"
  entity_distribution :: "(string \<times> nat) list option"

text \<open>ToNumber of a count, and of a count that may be \<open>undefined\<close>.\<close>

definition of_count :: "nat \<Rightarrow> number" where
  "of_count n = fl (of_nat n)"

definition of_count_opt :: "nat option \<Rightarrow> number" where
  "of_count_opt v = (case v of None \<Rightarrow> NaN | Some n \<Rightarrow> of_count n)"

text \<open>\<open>v || 0\<close> on a count that may be \<open>undefined\<close>.\<close>

definition or_zero :: "nat option \<Rightarrow> nat" where
  "or_zero v = (case v of None \<Rightarrow> 0 | Some n \<Rightarrow> if n \<noteq> 0 then n else 0)"

text \<open>
  \<open>s.replace('_', ' ')\<close> replaces the first underscore; \<open>replace(/\b\w/g, l => l.toUpperCase())\<close>
  puts the first character of every run of word characters in upper case. A word character
  is an ASCII letter, a digit or the underscore, so \<open>toUpperCase_char\<close> is only ever
  applied to those.
\<close>

definition is_word_char :: "char \<Rightarrow> bool" where
  "is_word_char c =
     (let n = (of_char c :: nat)
      in (48 \<le> n \<and> n \<le> 57) \<or> (65 \<le> n \<and> n \<le> 90) \<or> n = 95 \<or> (97 \<le> n \<and> n \<le> 122))"

definition toUpperCase_char :: "char \<Rightarrow> char" where
  "toUpperCase_char c =
     (let n = (of_char c :: nat) in if 97 \<le> n \<and> n \<le> 122 then char_of (n - 32) else c)"

fun replace_first :: "char \<Rightarrow> char \<Rightarrow> string \<Rightarrow> string" where
  "replace_first a b [] = []"
| "replace_first a b (c # cs) = (if c = a then b # cs else c # replace_first a b cs)"

fun capitalize_words :: "bool \<Rightarrow> string \<Rightarrow> string" where
  "capitalize_words in_word [] = []"
| "capitalize_words in_word (c # cs) =
     (if is_word_char c \<and> \<not> in_word then toUpperCase_char c else c)
     # capitalize_words (is_word_char c) cs"

definition display_name :: "string \<Rightarrow> string" where
  "display_name s = capitalize_words False (replace_first (CHR ''_'') (CHR '' '') s)"

record intent_entry =
  name_i :: string
  value_i :: nat
  percentage :: number

definition processIntentData :: "analytics \<Rightarrow> intent_entry list" where
  "processIntentData a =
     (case intent_distribution a of
        None \<Rightarrow> []
      | Some entries \<Rightarrow>
          js_sort (\<lambda>x y. int (value_i y) - int (value_i x) > 0)
            (map (\<lambda>(intent, count).
                    \<lparr> name_i = display_name intent,
                      value_i = count,
                      percentage =
                        Math_round (js_mul (js_div (of_count count)
                                                   (of_count_opt (total_interactions a)))
                                           (Finite 100)) \<rparr>)
                 entries))"

record channel_entry =
  name_ch :: string
  value_ch :: nat

text \<open>
  \<open>toUpperCase\<close> of a string of one code unit below 256: the ASCII letters and the
  Latin-1 letters from \<open>U+00E0\<close> to \<open>U+00FE\<close> (but the division sign \<open>U+00F7\<close>) move
  down by 32, and the sharp s \<open>U+00DF\<close> becomes \<open>SS\<close>. The upper-case forms of \<open>U+00B5\<close>
  and \<open>U+00FF\<close> lie above \<open>U+00FF\<close>, outside the code units kept here: these two are
  left as they are.
\<close>

definition toUpperCase_unit :: "char \<Rightarrow> string" where
  "toUpperCase_unit c =
     (let n = (of_char c :: nat)
      in if (97 \<le> n \<and> n \<le> 122) \<or> (224 \<le> n \<and> n \<le> 254 \<and> n \<noteq> 247) then [char_of (n - 32)]
         else if n = 223 then ''SS''
         else [c])"

text \<open>\<open>channel.charAt(0).toUpperCase() + channel.slice(1)\<close>.\<close>

definition processChannelData :: "analytics \<Rightarrow> channel_entry list" where
  "processChannelData a =
     (case channel_distribution a of
        None \<Rightarrow> []
      | Some entries \<Rightarrow>
          map (\<lambda>(channel, count).
                 \<lparr> name_ch = concat (map toUpperCase_unit (take 1 channel)) @ drop 1 channel,
                   value_ch = count \<rparr>)
              entries)"

record daily_entry =
  date_d :: string
  interactions :: nat

text \<open>
  The loop of \<open>processDailyData\<close>: \<open>i\<close> runs from \<open>timeRange - 1\<close> down to \<open>0\<close>.
  \<open>today\<close> is the calendar day of \<open>new Date()\<close>; the loop reads the clock at every
  iteration, and the model takes the day to be the same throughout one call.
\<close>

function daily_loop :: "int \<Rightarrow> (string \<times> nat) list \<Rightarrow> int \<Rightarrow> daily_entry list \<Rightarrow> daily_entry list" where
  "daily_loop today daily i days =
     (if 0 \<le> i
      then daily_loop today daily (i - 1)
             (days @ [\<lparr> date_d = format_MMM_dd (today - i),
                         interactions = or_zero (map_of daily (format_yyyy_MM_dd (today - i))) \<rparr>])
      else days)"
  by pat_completeness auto
termination
  by (relation "measure (\<lambda>(today, daily, i, days). nat (i + 1))") auto

declare daily_loop.simps [simp del]

definition processDailyData :: "int \<Rightarrow> int \<Rightarrow> analytics \<Rightarrow> daily_entry list" where
  "processDailyData today timeRange a =
     (case daily_interactions a of
        None \<Rightarrow> []
      | Some daily \<Rightarrow> daily_loop today daily (timeRange - 1) [])"

record confidence_entry =
  intent_cf :: string
  confidence_cf :: number

definition processConfidenceData :: "analytics \<Rightarrow> confidence_entry list" where
  "processConfidenceData a =
     (case average_confidence a of
        None \<Rightarrow> []
      | Some entries \<Rightarrow>
          js_sort (\<lambda>x y. is_positive (js_sub (confidence_cf y) (confidence_cf x)))
            (map (\<lambda>(intent, c).
                    \<lparr> intent_cf = display_name intent,
                      confidence_cf = Math_round (js_mul c (Finite 100)) \<rparr>)
                 entries))"

text \<open>
  The state of the component. The parsed body of a reply is \<open>null\<close> or an object whose
  \<open>analytics\<close> property is a rollup or missing.
\<close>

record analytics_state =
  analyticsData :: "analytics option"
  timeRange :: int
  isLoading_a :: bool
  lastUpdated :: "nat option"

datatype analytics_body = BodyNull | BodyObject "analytics option"

definition analytics_mount :: analytics_state where
  "analytics_mount =
     \<lparr> analyticsData = None, timeRange = 7, isLoading_a = True, lastUpdated = None \<rparr>"

definition toString_int :: "int \<Rightarrow> string" where
  "toString_int i = (if i < 0 then ''-'' @ toString_nat (nat (- i)) else toString_nat (nat i))"

definition analytics_request :: "analytics_state \<Rightarrow> request" where
  "analytics_request st =
     \<lparr> url = ''/api/analytics?days='' @ toString_int (timeRange st), http_method = ''GET'',
       headers = [], body = NoBody \<rparr>"

definition fetchAnalytics ::
  "nat \<Rightarrow> analytics_body fetch_result \<Rightarrow> analytics_state \<Rightarrow> analytics_state \<times> effect list" where
  "fetchAnalytics now res st =
     (let failed = (st\<lparr>isLoading_a := False\<rparr>,
                    [Fetch (analytics_request st), ConsoleError ''Error fetching analytics:'',
                     ToastError ''Failed to load analytics data''])
      in case await_json res of
           Inl e \<Rightarrow> failed
         | Inr BodyNull \<Rightarrow> failed
         | Inr (BodyObject a) \<Rightarrow>
             (st\<lparr>analyticsData := a, lastUpdated := Some now, isLoading_a := False\<rparr>,
              [Fetch (analytics_request st)]))"

text \<open>
  The time range selector: its options, and \<open>setTimeRange(Number(e.target.value))\<close> on
  the option chosen. The effect on \<open>[timeRange]\<close> fetches again when the value changed.
\<close>

definition timeRange_options :: "int list" where
  "timeRange_options = [7, 14, 30, 90]"

definition selectTimeRange ::
  "nat \<Rightarrow> nat \<Rightarrow> analytics_body fetch_result \<Rightarrow> analytics_state \<Rightarrow> analytics_state \<times> effect list" where
  "selectTimeRange k now res st =
     (if k < length timeRange_options \<and> timeRange_options ! k \<noteq> timeRange st
      then fetchAnalytics now res (st\<lparr>timeRange := timeRange_options ! k\<rparr>)
      else (st, []))"

text \<open>
  What the dashboard shows once a rollup is loaded: the values of the metric cards (before
  they are formatted), the data of the four charts, and the table of entity types (the six
  largest).
\<close>

record dashboard =
  card_total :: "nat option"
  card_sessions :: "nat option"
  card_time :: "number option"
  intentData :: "intent_entry list"
  channelData :: "channel_entry list"
  dailyData :: "daily_entry list"
  confidenceData :: "confidence_entry list"
  entityData :: "(string \<times> nat) list"

definition render_dashboard :: "int \<Rightarrow> analytics_state \<Rightarrow> dashboard option" where
  "render_dashboard today st =
     (if isLoading_a st then None
      else
        (case analyticsData st of
           None \<Rightarrow> None
         | Some a \<Rightarrow>
             Some \<lparr> card_total = total_interactions a,
                    card_sessions = unique_sessions a,
                    card_time = average_processing_time a,
                    intentData = processIntentData a,
                    channelData = processChannelData a,
                    dailyData = processDailyData today (timeRange st) a,
                    confidenceData = processConfidenceData a,
                    entityData =
                      (case entity_distribution a of
                         None \<Rightarrow> []
                       | Some entries \<Rightarrow>
                           take 6 (js_sort (\<lambda>x y. int (snd y) - int (snd x) > 0) entries)) \<rparr>))"

section \<open>The application as a whole\<close>

text \<open>
  The page: the state of \<open>App\<close>, the state of the component of the active tab (the other
  two are unmounted), the render \<open>processRecording\<close> was captured in, the number of
  follow-up modals in the document, and everything done so far.
\<close>

record world =
  app :: app_state
  chat :: chat_state
  voice :: voice_state
  voice_seen :: voice_state
  dash :: analytics_state
  modals :: nat
  trace :: "effect list"

text \<open>
  What can happen: the clicks, inputs, timer ticks and media events the three components
  handle. Every handler runs to its end, the replies of the environment being part of the
  event. An event is accepted in more states than the page offers it in (a control that is
  hidden or disabled can still be triggered here), which only adds behaviours.
\<close>

datatype event =
    HealthCheck "jsval fetch_result"
  | SelectTab string nat "analytics_body fetch_result"
  | ChatInput string
  | ChatSend chat_env
  | ChatClick nat nat "jsval fetch_result"
  | ChatClear
  | RequestFollowUp
  | FollowUpSend followup_form "jsval fetch_result"
  | FollowUpCancel
  | VoiceStart bool
  | VoiceData string
  | VoiceTick
  | VoiceStop voice_env
  | VoicePlay nat bool
  | AudioLoadStart
  | AudioEnded
  | AudioError
  | VoiceMute
  | VoiceClear
  | SelectTimeRange nat nat "analytics_body fetch_result"
  | AnalyticsRefresh nat "analytics_body fetch_result"

definition tab_ids :: "string list" where
  "tab_ids = [''chat'', ''voice'', ''analytics'']"

definition App_start :: "nat \<Rightarrow> string \<Rightarrow> world" where
  "App_start now rnd =
     \<lparr> app = App_init now rnd, chat = chat_mount now, voice = voice_mount,
       voice_seen = voice_mount, dash = analytics_mount, modals = 0, trace = [] \<rparr>"

definition on_chat :: "world \<Rightarrow> bool" where
  "on_chat w = (activeTab (app w) = ''chat'')"

definition on_voice :: "world \<Rightarrow> bool" where
  "on_voice w = (activeTab (app w) = ''voice'')"

definition on_analytics :: "world \<Rightarrow> bool" where
  "on_analytics w = (activeTab (app w) = ''analytics'')"

fun step :: "event \<Rightarrow> world \<Rightarrow> world" where
  "step (HealthCheck res) w =
     (let (a, effs) = checkSystemHealth res (app w) in w\<lparr>app := a, trace := trace w @ effs\<rparr>)"
| "step (SelectTab t now res) w =
     (if t \<notin> set tab_ids \<or> t = activeTab (app w) then w
      else
        let w1 = w\<lparr>app := (app w)\<lparr>activeTab := t\<rparr>\<rparr>
        in if t = ''chat'' then w1\<lparr>chat := chat_mount now\<rparr>
           else if t = ''voice'' then w1\<lparr>voice := voice_mount, voice_seen := voice_mount\<rparr>
           else
             (let (d, effs) = fetchAnalytics now res analytics_mount
              in w1\<lparr>dash := d, trace := trace w @ effs\<rparr>))"
| "step (ChatInput s) w =
     (if on_chat w then w\<lparr>chat := (chat w)\<lparr>inputText := s\<rparr>\<rparr> else w)"
| "step (ChatSend env) w =
     (if on_chat w
      then (let (c, effs) = sendMessage (app w) env (chat w)
            in w\<lparr>chat := c, trace := trace w @ effs\<rparr>)
      else w)"
| "step (ChatClick i j res) w =
     (if on_chat w \<and> i < length (messages (chat w))
         \<and> j < length (message_actions i (messages (chat w) ! i))
      then (let (c, effs) = run_chat_action (app w) (message_actions i (messages (chat w) ! i) ! j)
                              res (chat w)
            in w\<lparr>chat := c, trace := trace w @ effs\<rparr>)
      else w)"
| "step ChatClear w =
     (if on_chat w
      then (let (c, effs) = clearChat (chat w) in w\<lparr>chat := c, trace := trace w @ effs\<rparr>)
      else w)"
| "step RequestFollowUp w =
     (if on_chat w then w\<lparr>modals := modals w + 1\<rparr> else w)"
| "step (FollowUpSend f res) w =
     (if 0 < modals w
      then (let effs = sendFollowUp (app w) f res
            in w\<lparr>modals := (if RemoveModal \<in> set effs then modals w - 1 else modals w),
                 trace := trace w @ effs\<rparr>)
      else w)"
| "step FollowUpCancel w =
     (if 0 < modals w then w\<lparr>modals := modals w - 1\<rparr> else w)"
| "step (VoiceStart media_ok) w =
     (if on_voice w \<and> isConnected (app w) \<and> \<not> isProcessing (voice w) \<and> \<not> isRecording (voice w)
      then (let (v, effs) = startRecording media_ok (voice w)
            in w\<lparr>voice := v, voice_seen := (if media_ok then voice w else voice_seen w),
                 trace := trace w @ effs\<rparr>)
      else w)"
| "step (VoiceData chunk) w =
     (if on_voice w \<and> isRecording (voice w)
      then w\<lparr>voice := ondataavailable chunk (voice w)\<rparr>
      else w)"
| "step (VoiceStop env) w =
     (if on_voice w \<and> isConnected (app w) \<and> \<not> isProcessing (voice w) \<and> isRecording (voice w)
      then (let (v, effs) = stopRecording (app w) (voice_seen w) env (voice w)
            in w\<lparr>voice := v, trace := trace w @ effs\<rparr>)
      else w)"
| "step VoiceTick w =
     (if on_voice w \<and> isRecording (voice w)
      then w\<lparr>voice := (voice w)\<lparr>recordingTime := recordingTime (voice w) + 1\<rparr>\<rparr>
      else w)"
| "step (VoicePlay i played) w =
     (if on_voice w \<and> i < length (conversations (voice w))
         \<and> truthy (audioUrl (conversations (voice w) ! i))
      then
        (if isPlaying (voice w)
         then (let (v, effs) = pauseAudio (voice w) in w\<lparr>voice := v, trace := trace w @ effs\<rparr>)
         else (let (v, started, later) =
                     playAudio (voice w) played (audioUrl (conversations (voice w) ! i)) (voice w)
               in w\<lparr>voice := v, trace := trace w @ started @ later\<rparr>))
      else w)"
| "step AudioLoadStart w =
     (if on_voice w \<and> currentAudio (voice w) \<noteq> None
      then w\<lparr>voice := onloadstart (voice w)\<rparr> else w)"
| "step AudioEnded w =
     (if on_voice w \<and> currentAudio (voice w) \<noteq> None
      then w\<lparr>voice := onended (voice w)\<rparr> else w)"
| "step AudioError w =
     (if on_voice w \<and> currentAudio (voice w) \<noteq> None
      then (let (v, effs) = onerror (voice w) in w\<lparr>voice := v, trace := trace w @ effs\<rparr>)
      else w)"
| "step VoiceMute w =
     (if on_voice w then w\<lparr>voice := (voice w)\<lparr>isMuted := \<not> isMuted (voice w)\<rparr>\<rparr> else w)"
| "step VoiceClear w =
     (if on_voice w
      then (let (v, effs) = clearConversations (voice w)
            in w\<lparr>voice := v, trace := trace w @ effs\<rparr>)
      else w)"
| "step (SelectTimeRange k now res) w =
     (if on_analytics w \<and> \<not> isLoading_a (dash w) \<and> analyticsData (dash w) \<noteq> None
      then (let (d, effs) = selectTimeRange k now res (dash w)
            in w\<lparr>dash := d, trace := trace w @ effs\<rparr>)
      else w)"
| "step (AnalyticsRefresh now res) w =
     (if on_analytics w \<and> \<not> isLoading_a (dash w)
      then (let (d, effs) = fetchAnalytics now res (dash w)
            in w\<lparr>dash := d, trace := trace w @ effs\<rparr>)
      else w)"

definition run :: "event list \<Rightarrow> world \<Rightarrow> world" where
  "run es w = fold step es w"

text \<open>The \<open>session_id\<close> a request carries, in a JSON body or in a form.\<close>

definition session_id_of :: "request \<Rightarrow> jsval option" where
  "session_id_of r =
     (case body r of
        JsonBody (JObj fs) \<Rightarrow> map_of fs ''session_id''
      | FormBody fs \<Rightarrow>
          (case map_of fs ''session_id'' of Some (FormText s) \<Rightarrow> Some (JStr s) | _ \<Rightarrow> None)
      | _ \<Rightarrow> None)"

text \<open>The names of the fields of a JSON request body, in order.\<close>

definition body_fields :: "request \<Rightarrow> string list" where
  "body_fields r = (case body r of JsonBody (JObj fs) \<Rightarrow> map fst fs | _ \<Rightarrow> [])"

section \<open>Requests the application can issue\<close>

text \<open>
  The requests the handlers build, for an application whose session id is \<open>sid\<close>; and
  the invariant of the page that every request done so far is one of them.
\<close>

inductive issued :: "string \<Rightarrow> request \<Rightarrow> bool" for sid :: string where
  issued_health: "issued sid health_request"
| issued_chat: "sessionId a = sid \<Longrightarrow> issued sid (chat_request a um)"
| issued_feedback:
    "sessionId a = sid \<Longrightarrow> t = ''positive'' \<or> t = ''negative'' \<Longrightarrow>
     issued sid (feedback_request a mid t)"
| issued_followup:
    "sessionId a = sid \<Longrightarrow> email f \<noteq> [] \<Longrightarrow> name_f f \<noteq> [] \<Longrightarrow>
     issued sid (followup_request a f)"
| issued_voice: "sessionId a = sid \<Longrightarrow> chunks \<noteq> [] \<Longrightarrow> issued sid (voice_request a chunks)"
| issued_analytics: "timeRange st \<in> set timeRange_options \<Longrightarrow> issued sid (analytics_request st)"

definition sound :: "string \<Rightarrow> world \<Rightarrow> bool" where
  "sound sid w =
     (sessionId (app w) = sid \<and> timeRange (dash w) \<in> set timeRange_options
      \<and> (\<forall>r \<in> set (requests (trace w)). issued sid r))"

section \<open>Properties\<close>

subsection \<open>The requests of each handler\<close>

lemma requests_append: "requests (xs @ ys) = requests xs @ requests ys"
  by (induction xs rule: requests.induct) simp_all

lemma health_issues:
  "r \<in> set (requests (snd (checkSystemHealth res a))) \<Longrightarrow> issued sid r"
  by (auto simp: checkSystemHealth_def intro: issued.intros split: fetch_result.splits if_splits)

lemma health_keeps:
  "sessionId (fst (checkSystemHealth res a)) = sessionId a"
  "activeTab (fst (checkSystemHealth res a)) = activeTab a"
  by (auto simp: checkSystemHealth_def split: fetch_result.splits)

lemma sendMessage_requests:
  "requests (snd (sendMessage a env st)) =
     (if send_disabled a st then [] else [chat_request a (userMessage (now_start env) st)])"
  by (auto simp: sendMessage_def Let_def sendMessage_timeout_def split: sum.splits prod.splits)

lemma sendFeedback_requests:
  "requests (snd (sendFeedback a mid t res st)) = [feedback_request a mid t]"
  by (auto simp: sendFeedback_def split: fetch_result.splits)

lemma sendFeedback_state: "fst (sendFeedback a mid t res st) = st"
  by (auto simp: sendFeedback_def split: fetch_result.splits)

lemma message_actions_feedback:
  "SendFeedback mid t \<in> set (message_actions i m) \<Longrightarrow>
   type_m m = ''bot'' \<and> \<not> isError m \<and> mid = id_m m \<and> (t = ''positive'' \<or> t = ''negative'')"
  by (auto simp: message_actions_def split: if_splits)

lemma run_chat_action_issues:
  assumes "act \<in> set (message_actions i m)" "sessionId a = sid"
    and "r \<in> set (requests (snd (run_chat_action a act res st)))"
  shows "issued sid r"
proof (cases act)
  case (SendFeedback mid t)
  with assms(1) have "t = ''positive'' \<or> t = ''negative''"
    using message_actions_feedback by blast
  with assms SendFeedback show ?thesis
    by (auto simp: run_chat_action_def sendFeedback_requests intro: issued_feedback)
qed (use assms in \<open>auto simp: run_chat_action_def\<close>)

lemma sendFollowUp_requests:
  "requests (sendFollowUp a f res) =
     (if email f = [] \<or> name_f f = [] then [] else [followup_request a f])"
  by (auto simp: sendFollowUp_def split: fetch_result.splits)

lemma processRecording_requests:
  "requests (snd (processRecording a seen env st)) =
     (if audioChunks st = [] then [] else [voice_request a (audioChunks st)])"
  by (auto simp: processRecording_def Let_def playAudio_def requests_append
           split: sum.splits prod.splits if_splits)

lemma stopRecording_issues:
  "sessionId a = sid \<Longrightarrow> r \<in> set (requests (snd (stopRecording a seen env st))) \<Longrightarrow> issued sid r"
  by (auto simp: stopRecording_def processRecording_requests intro: issued_voice split: if_splits)

lemma fetchAnalytics_requests:
  "requests (snd (fetchAnalytics now res st)) = [analytics_request st]"
  by (auto simp: fetchAnalytics_def Let_def split: sum.splits analytics_body.splits)

lemma fetchAnalytics_timeRange: "timeRange (fst (fetchAnalytics now res st)) = timeRange st"
  by (auto simp: fetchAnalytics_def Let_def split: sum.splits analytics_body.splits)

lemma analytics_request_cong:
  "timeRange st = timeRange st' \<Longrightarrow> analytics_request st = analytics_request st'"
  by (simp add: analytics_request_def)

lemma selectTimeRange_requests:
  "r \<in> set (requests (snd (selectTimeRange k now res st))) \<Longrightarrow> issued sid r"
  by (auto simp: selectTimeRange_def fetchAnalytics_requests intro!: issued_analytics split: if_splits)

lemma selectTimeRange_timeRange:
  "timeRange st \<in> set timeRange_options \<Longrightarrow>
   timeRange (fst (selectTimeRange k now res st)) \<in> set timeRange_options"
  by (auto simp: selectTimeRange_def fetchAnalytics_timeRange split: if_splits)

lemma sound_start: "sound (sessionId (App_init now rnd)) (App_start now rnd)"
  by (simp add: sound_def App_start_def analytics_mount_def timeRange_options_def)

lemma sound_step: "sound sid w \<Longrightarrow> sound sid (step e w)"
proof (cases e)
  case (HealthCheck res)
  assume "sound sid w"
  then show ?thesis using HealthCheck
    by (auto simp: sound_def case_prod_beta requests_append health_keeps dest: health_issues)
next
  case (SelectTab t now res)
  assume "sound sid w"
  then show ?thesis using SelectTab
    by (auto simp: sound_def Let_def case_prod_beta requests_append fetchAnalytics_requests
          fetchAnalytics_timeRange analytics_mount_def timeRange_options_def
          intro!: issued_analytics)
next
  case (ChatSend env)
  assume "sound sid w"
  then show ?thesis using ChatSend
    by (auto simp: sound_def case_prod_beta requests_append sendMessage_requests
          intro!: issued_chat split: if_splits)
next
  case (ChatClick i j res)
  assume "sound sid w"
  then have inv: "sessionId (app w) = sid" "timeRange (dash w) \<in> set timeRange_options"
      "\<forall>r \<in> set (requests (trace w)). issued sid r"
    by (simp_all add: sound_def)
  show ?thesis
  proof (cases "on_chat w \<and> i < length (messages (chat w))
                 \<and> j < length (message_actions i (messages (chat w) ! i))")
    case True
    then have "message_actions i (messages (chat w) ! i) ! j
                 \<in> set (message_actions i (messages (chat w) ! i))"
      by simp
    from run_chat_action_issues[OF this inv(1)] inv True ChatClick show ?thesis
      by (auto simp: sound_def case_prod_beta requests_append)
  next
    case False
    with inv ChatClick show ?thesis by (auto simp: sound_def)
  qed
next
  case ChatClear
  assume "sound sid w"
  then show ?thesis using ChatClear
    by (auto simp: sound_def case_prod_beta requests_append clearChat_def)
next
  case (FollowUpSend f res)
  assume "sound sid w"
  then show ?thesis using FollowUpSend
    by (auto simp: sound_def Let_def requests_append sendFollowUp_requests
          intro!: issued_followup split: if_splits)
next
  case (VoiceStart ok)
  assume "sound sid w"
  then show ?thesis using VoiceStart
    by (auto simp: sound_def case_prod_beta requests_append startRecording_def)
next
  case (VoiceStop env)
  assume "sound sid w"
  then show ?thesis using VoiceStop
    by (auto simp: sound_def case_prod_beta requests_append dest: stopRecording_issues[OF refl])
next
  case (VoicePlay i played)
  assume "sound sid w"
  then show ?thesis using VoicePlay
    by (auto simp: sound_def case_prod_beta requests_append pauseAudio_def playAudio_def Let_def
          onerror_def)
next
  case AudioError
  assume "sound sid w"
  then show ?thesis using AudioError
    by (auto simp: sound_def case_prod_beta requests_append onerror_def)
next
  case VoiceClear
  assume "sound sid w"
  then show ?thesis using VoiceClear
    by (auto simp: sound_def case_prod_beta requests_append clearConversations_def)
next
  case (SelectTimeRange k now res)
  assume "sound sid w"
  then show ?thesis using SelectTimeRange
    by (auto simp: sound_def case_prod_beta requests_append selectTimeRange_timeRange
          dest: selectTimeRange_requests)
next
  case (AnalyticsRefresh now res)
  assume "sound sid w"
  then show ?thesis using AnalyticsRefresh
    by (auto simp: sound_def case_prod_beta requests_append fetchAnalytics_requests
          fetchAnalytics_timeRange intro!: issued_analytics)
qed (auto simp: sound_def)

lemma sound_run: "sound sid w \<Longrightarrow> sound sid (run es w)"
  unfolding run_def by (induction es arbitrary: w) (simp_all add: sound_step)

subsection \<open>Chat\<close>

lemma get_prop_total:
  "data \<noteq> JNull \<Longrightarrow> data \<noteq> JUndefined \<Longrightarrow> \<exists>v. get_prop data k = Inr v"
  by (cases data) simp_all

lemma botMessage_total:
  assumes "data \<noteq> JNull" "data \<noteq> JUndefined"
  shows "\<exists>bm. botMessage now data = Inr bm \<and> type_m bm = ''bot'' \<and> \<not> isError bm
           \<and> get_prop data ''response'' = Inr (content bm)
           \<and> get_prop data ''intent'' = Inr (intent bm)
           \<and> get_prop data ''confidence'' = Inr (confidence bm)"
proof -
  from assms obtain r i c where
    "get_prop data ''response'' = Inr r" "get_prop data ''intent'' = Inr i"
    "get_prop data ''confidence'' = Inr c"
    using get_prop_total by metis
  then show ?thesis by (simp add: botMessage_def)
qed

lemma errorMessage_phone:
  "\<exists>p. content (errorMessage now) = JStr (p @ ''(555) 123-4567.'')"
  by (rule exI[of _ "''I'm sorry, I'm having trouble connecting right now. Please try again or contact our admissions office directly at ''"])
     (simp add: errorMessage_def)

text \<open>
  Claim C1. A chat turn that is sent posts one request to \<open>/api/chat\<close> whose body has
  exactly the fields \<open>message\<close> (the trimmed input) and \<open>session_id\<close>. When the reply
  is successful and its body is not \<open>null\<close>, the bot message appended after the user's
  message takes \<open>content\<close>, \<open>intent\<close> and \<open>confidence\<close> from the properties
  \<open>response\<close>, \<open>intent\<close> and \<open>confidence\<close> of that body.
\<close>

theorem chat_turn_request_and_reply:
  assumes "\<not> send_disabled a st"
  shows "(\<exists>r. requests (snd (sendMessage a env st)) = [r]
            \<and> url r = ''/api/chat'' \<and> http_method r = ''POST''
            \<and> body r = JsonBody (JObj [(''message'', JStr (trim (inputText st))),
                                        (''session_id'', JStr (sessionId a))])
            \<and> body_fields r = [''message'', ''session_id''])
       \<and> (\<forall>r data. reply_c env = Resolved r \<and> ok r \<and> json r = Some data
              \<and> data \<noteq> JNull \<and> data \<noteq> JUndefined \<longrightarrow>
            (\<exists>bm. messages (fst (sendMessage a env st))
                     = messages st @ [userMessage (now_start env) st, bm]
                 \<and> type_m bm = ''bot'' \<and> \<not> isError bm
                 \<and> get_prop data ''response'' = Inr (content bm)
                 \<and> get_prop data ''intent'' = Inr (intent bm)
                 \<and> get_prop data ''confidence'' = Inr (confidence bm)))"
proof (intro conjI allI impI)
  show "\<exists>r. requests (snd (sendMessage a env st)) = [r]
            \<and> url r = ''/api/chat'' \<and> http_method r = ''POST''
            \<and> body r = JsonBody (JObj [(''message'', JStr (trim (inputText st))),
                                        (''session_id'', JStr (sessionId a))])
            \<and> body_fields r = [''message'', ''session_id'']"
    using assms by (simp add: sendMessage_requests chat_request_def userMessage_def body_fields_def)
next
  fix r data
  assume h: "reply_c env = Resolved r \<and> ok r \<and> json r = Some data
              \<and> data \<noteq> JNull \<and> data \<noteq> JUndefined"
  then have aw: "await_json (reply_c env) = Inr data"
    by (simp add: await_json_def)
  from h obtain bm where bm: "botMessage (now_end env) data = Inr bm"
    "type_m bm = ''bot''" "\<not> isError bm"
    "get_prop data ''response'' = Inr (content bm)"
    "get_prop data ''intent'' = Inr (intent bm)"
    "get_prop data ''confidence'' = Inr (confidence bm)"
    using botMessage_total by blast
  have "messages (fst (sendMessage a env st)) = messages st @ [userMessage (now_start env) st, bm]"
    using assms aw bm(1) by (simp add: sendMessage_def Let_def sendMessage_timeout_def)
  with bm show "\<exists>bm. messages (fst (sendMessage a env st))
                     = messages st @ [userMessage (now_start env) st, bm]
                 \<and> type_m bm = ''bot'' \<and> \<not> isError bm
                 \<and> get_prop data ''response'' = Inr (content bm)
                 \<and> get_prop data ''intent'' = Inr (intent bm)
                 \<and> get_prop data ''confidence'' = Inr (confidence bm)"
    by blast
qed

theorem chat_turn_request_and_reply_witness:
  "\<not> send_disabled \<lparr>activeTab = ''chat'', sessionId = ''session_5_abc'', isConnected = True, systemStatus = ''healthy''\<rparr>
        \<lparr>messages = [], inputText = '' hi '', isLoading = False, isTyping = False\<rparr>
   \<and> (\<exists>bm. messages (fst (sendMessage
          \<lparr>activeTab = ''chat'', sessionId = ''session_5_abc'', isConnected = True, systemStatus = ''healthy''\<rparr>
          \<lparr>now_start = 6,
            reply_c = Resolved \<lparr>ok = True, status = 200, statusText = ''OK'',
                        json = Some (JObj [(''response'', JStr ''Hello''), (''intent'', JStr ''greeting''),
                                           (''confidence'', JNum (Finite 1))])\<rparr>,
            now_end = 7\<rparr>
          \<lparr>messages = [], inputText = '' hi '', isLoading = False, isTyping = False\<rparr>))
        = [userMessage 6 \<lparr>messages = [], inputText = '' hi '', isLoading = False, isTyping = False\<rparr>, bm]
      \<and> content bm = JStr ''Hello'' \<and> intent bm = JStr ''greeting''
      \<and> confidence bm = JNum (Finite 1))"
proof -
  let ?a = "\<lparr>activeTab = ''chat'', sessionId = ''session_5_abc'', isConnected = True, systemStatus = ''healthy''\<rparr>"
  let ?st = "\<lparr>messages = [], inputText = '' hi '', isLoading = False, isTyping = False\<rparr>"
  let ?data = "JObj [(''response'', JStr ''Hello''), (''intent'', JStr ''greeting''),
                     (''confidence'', JNum (Finite 1))]"
  let ?r = "\<lparr>ok = True, status = 200, statusText = ''OK'', json = Some ?data\<rparr>"
  let ?env = "\<lparr>now_start = 6, reply_c = Resolved ?r, now_end = 7\<rparr>"
  have h: "\<not> send_disabled ?a ?st"
    by (simp add: send_disabled_def trim_def is_white_space_def)
  from chat_turn_request_and_reply[OF h, of ?env]
  have "\<forall>r data. reply_c ?env = Resolved r \<and> ok r \<and> json r = Some data
              \<and> data \<noteq> JNull \<and> data \<noteq> JUndefined \<longrightarrow>
            (\<exists>bm. messages (fst (sendMessage ?a ?env ?st))
                     = messages ?st @ [userMessage (now_start ?env) ?st, bm]
                 \<and> type_m bm = ''bot'' \<and> \<not> isError bm
                 \<and> get_prop data ''response'' = Inr (content bm)
                 \<and> get_prop data ''intent'' = Inr (intent bm)
                 \<and> get_prop data ''confidence'' = Inr (confidence bm))"
    by (rule conjunct2)
  then have "reply_c ?env = Resolved ?r \<and> ok ?r \<and> json ?r = Some ?data
              \<and> ?data \<noteq> JNull \<and> ?data \<noteq> JUndefined \<longrightarrow>
            (\<exists>bm. messages (fst (sendMessage ?a ?env ?st))
                     = messages ?st @ [userMessage (now_start ?env) ?st, bm]
                 \<and> type_m bm = ''bot'' \<and> \<not> isError bm
                 \<and> get_prop ?data ''response'' = Inr (content bm)
                 \<and> get_prop ?data ''intent'' = Inr (intent bm)
                 \<and> get_prop ?data ''confidence'' = Inr (confidence bm))"
    by blast
  then have "\<exists>bm. messages (fst (sendMessage ?a ?env ?st)) = [userMessage 6 ?st, bm]
      \<and> content bm = JStr ''Hello'' \<and> intent bm = JStr ''greeting''
      \<and> confidence bm = JNum (Finite 1)"
    by auto
  with h show ?thesis by (rule conjI)
qed

text \<open>
  Claim C3. \<open>isConnected\<close> is false at the start and after a health check is true
  exactly when the check resolved with an ok status. While it is false, \<open>sendMessage\<close>
  does nothing at all (no request, the state unchanged) and the send button is disabled.
\<close>

theorem health_check_gates_chat:
  "\<not> isConnected (App_init now rnd)
   \<and> (isConnected (fst (checkSystemHealth hr a0)) \<longleftrightarrow> (\<exists>r. hr = Resolved r \<and> ok r))
   \<and> (\<not> isConnected a \<longrightarrow>
        sendMessage a env st = (st, []) \<and> send_disabled a st)"
  by (auto simp: App_init_def checkSystemHealth_def sendMessage_def send_disabled_def split: fetch_result.splits)

theorem health_check_gates_chat_witness:
  "\<not> isConnected (App_init 5 ''0.k2j4h6'')
   \<and> sendMessage (App_init 5 ''0.k2j4h6'') \<lparr>now_start = 6, reply_c = Rejected, now_end = 7\<rparr>
        \<lparr>messages = [], inputText = ''hi'', isLoading = False, isTyping = False\<rparr>
      = (\<lparr>messages = [], inputText = ''hi'', isLoading = False, isTyping = False\<rparr>, [])
   \<and> send_disabled (App_init 5 ''0.k2j4h6'')
        \<lparr>messages = [], inputText = ''hi'', isLoading = False, isTyping = False\<rparr>"
  using health_check_gates_chat[of 5 "''0.k2j4h6''" "Rejected :: jsval fetch_result" "App_init 5 ''0.k2j4h6''" "App_init 5 ''0.k2j4h6''"
           "\<lparr>now_start = 6, reply_c = Rejected, now_end = 7\<rparr>"
           "\<lparr>messages = [], inputText = ''hi'', isLoading = False, isTyping = False\<rparr>"]
  by blast

text \<open>
  Claim C4. A chat turn that is sent and whose \<open>fetch\<close> rejects or resolves with a
  status that is not ok appends, after the user's message, a bot message marked as an
  error whose text ends with the phone number of the admissions office; \<open>isLoading\<close> and
  \<open>isTyping\<close> are false again, and no exception escapes.
\<close>

theorem chat_failure_yields_error_message:
  assumes "\<not> send_disabled a st"
    and "reply_c env = Rejected \<or> (\<exists>r. reply_c env = Resolved r \<and> \<not> ok r)"
  shows "fst (sendMessage a env st) =
           st\<lparr>messages := messages st @ [userMessage (now_start env) st, errorMessage (now_end env)],
              inputText := [], isLoading := False, isTyping := False\<rparr>
       \<and> (\<forall>e. Uncaught e \<notin> set (snd (sendMessage a env st)))
       \<and> type_m (errorMessage (now_end env)) = ''bot''
       \<and> isError (errorMessage (now_end env))
       \<and> (\<exists>p. content (errorMessage (now_end env)) = JStr (p @ ''(555) 123-4567.''))"
proof -
  from assms(2) obtain e where e: "await_json (reply_c env) = Inl e"
    by (auto simp: await_json_def)
  have 1: "fst (sendMessage a env st) =
           st\<lparr>messages := messages st @ [userMessage (now_start env) st, errorMessage (now_end env)],
              inputText := [], isLoading := False, isTyping := False\<rparr>"
    using assms(1) e by (simp add: sendMessage_def Let_def)
  have 2: "\<forall>e. Uncaught e \<notin> set (snd (sendMessage a env st))"
    using assms(1) e by (simp add: sendMessage_def Let_def)
  have 3: "type_m (errorMessage (now_end env)) = ''bot'' \<and> isError (errorMessage (now_end env))"
    by (simp add: errorMessage_def)
  from 1 2 3 errorMessage_phone show ?thesis by blast
qed

theorem chat_failure_yields_error_message_witness:
  "\<not> send_disabled \<lparr>activeTab = ''chat'', sessionId = ''session_5_abc'', isConnected = True, systemStatus = ''healthy''\<rparr>
        \<lparr>messages = [], inputText = ''hi'', isLoading = False, isTyping = False\<rparr>
   \<and> fst (sendMessage
          \<lparr>activeTab = ''chat'', sessionId = ''session_5_abc'', isConnected = True, systemStatus = ''healthy''\<rparr>
          \<lparr>now_start = 6,
            reply_c = Resolved \<lparr>ok = False, status = 500, statusText = ''Internal Server Error'', json = None\<rparr>,
            now_end = 7\<rparr>
          \<lparr>messages = [], inputText = ''hi'', isLoading = False, isTyping = False\<rparr>)
      = \<lparr>messages = [userMessage 6 \<lparr>messages = [], inputText = ''hi'', isLoading = False, isTyping = False\<rparr>,
                       errorMessage 7],
         inputText = [], isLoading = False, isTyping = False\<rparr>"
proof -
  let ?a = "\<lparr>activeTab = ''chat'', sessionId = ''session_5_abc'', isConnected = True, systemStatus = ''healthy''\<rparr>"
  let ?st = "\<lparr>messages = [], inputText = ''hi'', isLoading = False, isTyping = False\<rparr>"
  let ?r = "\<lparr>ok = False, status = 500, statusText = ''Internal Server Error'', json = None :: jsval option\<rparr>"
  let ?env = "\<lparr>now_start = 6, reply_c = Resolved ?r, now_end = 7\<rparr>"
  have h: "\<not> send_disabled ?a ?st"
    by (simp add: send_disabled_def trim_def is_white_space_def)
  have f: "reply_c ?env = Rejected \<or> (\<exists>r. reply_c ?env = Resolved r \<and> \<not> ok r)"
    by simp
  from chat_failure_yields_error_message[OF h f] have "fst (sendMessage ?a ?env ?st) =
           ?st\<lparr>messages := messages ?st @ [userMessage (now_start ?env) ?st, errorMessage (now_end ?env)],
              inputText := [], isLoading := False, isTyping := False\<rparr>"
    by (rule conjunct1)
  with h show ?thesis by simp
qed

text \<open>
  Claim C5. \<open>sendFollowUp\<close> posts nothing when the email or the name is empty; otherwise
  it posts one request to \<open>/api/followup\<close> whose body has exactly the fields \<open>email\<close>,
  \<open>name\<close>, \<open>session_id\<close> and \<open>inquiry_type\<close>.
\<close>

theorem followup_validates_presence:
  "(email f = [] \<or> name_f f = [] \<longrightarrow> requests (sendFollowUp a f res) = [])
   \<and> (email f \<noteq> [] \<and> name_f f \<noteq> [] \<longrightarrow>
        (\<exists>r. requests (sendFollowUp a f res) = [r]
            \<and> url r = ''/api/followup'' \<and> http_method r = ''POST''
            \<and> body r = JsonBody (JObj [(''email'', JStr (email f)), (''name'', JStr (name_f f)),
                                        (''session_id'', JStr (sessionId a)),
                                        (''inquiry_type'', JStr ''general'')])
            \<and> body_fields r = [''email'', ''name'', ''session_id'', ''inquiry_type'']))"
  by (simp add: sendFollowUp_requests followup_request_def body_fields_def)

theorem followup_validates_presence_witness:
  "requests (sendFollowUp \<lparr>activeTab = ''chat'', sessionId = ''session_5_abc'', isConnected = True, systemStatus = ''healthy''\<rparr>
              \<lparr>email = '''', name_f = ''Ann''\<rparr> Rejected) = []
   \<and> (\<exists>r. requests (sendFollowUp \<lparr>activeTab = ''chat'', sessionId = ''session_5_abc'', isConnected = True, systemStatus = ''healthy''\<rparr>
                       \<lparr>email = ''ann@example.org'', name_f = ''Ann''\<rparr> Rejected) = [r]
         \<and> body r = JsonBody (JObj [(''email'', JStr ''ann@example.org''), (''name'', JStr ''Ann''),
                                     (''session_id'', JStr ''session_5_abc''),
                                     (''inquiry_type'', JStr ''general'')]))"
  using followup_validates_presence[of "\<lparr>email = '''', name_f = ''Ann''\<rparr>"
              "\<lparr>activeTab = ''chat'', sessionId = ''session_5_abc'', isConnected = True, systemStatus = ''healthy''\<rparr>"
              Rejected]
        followup_validates_presence[of "\<lparr>email = ''ann@example.org'', name_f = ''Ann''\<rparr>"
              "\<lparr>activeTab = ''chat'', sessionId = ''session_5_abc'', isConnected = True, systemStatus = ''healthy''\<rparr>"
              Rejected]
  by auto

text \<open>
  Claim C7. A feedback button is rendered only under a bot message that is not an error,
  for the id of that message and with the type \<open>positive\<close> or \<open>negative\<close>. Clicking it
  posts one request to \<open>/api/feedback\<close> whose body has exactly the fields \<open>session_id\<close>,
  \<open>message_id\<close> and \<open>feedback_type\<close>. Whatever the reply, the state of the chat is
  unchanged, and two resolved replies are not told apart.
\<close>

theorem feedback_submission:
  assumes "SendFeedback mid t \<in> set (message_actions i m)"
  shows "type_m m = ''bot'' \<and> \<not> isError m \<and> mid = id_m m
       \<and> (t = ''positive'' \<or> t = ''negative'')
       \<and> (\<exists>r. requests (snd (sendFeedback a mid t res st)) = [r]
             \<and> url r = ''/api/feedback'' \<and> http_method r = ''POST''
             \<and> body r = JsonBody (JObj [(''session_id'', JStr (sessionId a)),
                                         (''message_id'', JStr mid),
                                         (''feedback_type'', JStr t)])
             \<and> body_fields r = [''session_id'', ''message_id'', ''feedback_type''])
       \<and> fst (sendFeedback a mid t res st) = st
       \<and> sendFeedback a mid t (Resolved r1) st = sendFeedback a mid t (Resolved r2) st"
  using message_actions_feedback[OF assms]
  by (simp add: sendFeedback_requests sendFeedback_state feedback_request_def body_fields_def)
     (simp add: sendFeedback_def)

theorem feedback_submission_witness:
  "SendFeedback ''welcome'' ''negative'' \<in> set (message_actions 0 (welcomeMessage 5))
   \<and> (\<exists>r. requests (snd (sendFeedback
               \<lparr>activeTab = ''chat'', sessionId = ''session_5_abc'', isConnected = True, systemStatus = ''healthy''\<rparr>
               ''welcome'' ''negative'' Rejected (chat_mount 5))) = [r]
         \<and> body r = JsonBody (JObj [(''session_id'', JStr ''session_5_abc''),
                                     (''message_id'', JStr ''welcome''),
                                     (''feedback_type'', JStr ''negative'')]))
   \<and> fst (sendFeedback
               \<lparr>activeTab = ''chat'', sessionId = ''session_5_abc'', isConnected = True, systemStatus = ''healthy''\<rparr>
               ''welcome'' ''negative'' Rejected (chat_mount 5)) = chat_mount 5"
proof -
  have h: "SendFeedback ''welcome'' ''negative'' \<in> set (message_actions 0 (welcomeMessage 5))"
    by (simp add: message_actions_def welcomeMessage_def)
  let ?a = "\<lparr>activeTab = ''chat'', sessionId = ''session_5_abc'', isConnected = True, systemStatus = ''healthy''\<rparr>"
  note t = feedback_submission[OF h, of ?a Rejected "chat_mount 5"]
  from t have A: "\<exists>r. requests (snd (sendFeedback ?a ''welcome'' ''negative'' Rejected (chat_mount 5))) = [r]
             \<and> url r = ''/api/feedback'' \<and> http_method r = ''POST''
             \<and> body r = JsonBody (JObj [(''session_id'', JStr (sessionId ?a)),
                                         (''message_id'', JStr ''welcome''),
                                         (''feedback_type'', JStr ''negative'')])
             \<and> body_fields r = [''session_id'', ''message_id'', ''feedback_type'']"
    by blast
  from t have B: "fst (sendFeedback ?a ''welcome'' ''negative'' Rejected (chat_mount 5)) = chat_mount 5"
    by blast
  from A have "\<exists>r. requests (snd (sendFeedback ?a ''welcome'' ''negative'' Rejected (chat_mount 5))) = [r]
         \<and> body r = JsonBody (JObj [(''session_id'', JStr ''session_5_abc''),
                                     (''message_id'', JStr ''welcome''),
                                     (''feedback_type'', JStr ''negative'')])"
    by auto
  with h B show ?thesis by blast
qed

subsection \<open>Voice\<close>


text \<open>
  An entry whose response is an object does not render: the exception unmounts the page.
\<close>

lemma render_conversation_rejects_object:
  "render_conversation
     \<lparr> id_c = ''9'', timestamp_c = 9, transcript = JStr ''hello'',
       response = JObj [(''text'', JStr ''Please try again.'')], audioUrl = JNull,
       intent_c = JStr ''unknown'', confidence_c = JNum (Finite 0),
       recordingDuration = 3 \<rparr> = Inl InvalidChild"
  by (simp add: render_conversation_def js_or_def)



subsection \<open>Session id\<close>

text \<open>
  Claim C8. The session id is computed once, when the page starts, from the clock and a
  random string. After any sequence of events the session id of \<open>App\<close> is still that one,
  and every request done to the chat, voice, feedback and follow-up endpoints carries it
  as \<open>session_id\<close>.
\<close>

theorem session_id_constant:
  "sessionId (app (run es (App_start now rnd))) = sessionId (App_init now rnd)
   \<and> (\<forall>r \<in> set (requests (trace (run es (App_start now rnd)))).
         url r \<in> {''/api/chat'', ''/api/voice'', ''/api/feedback'', ''/api/followup''} \<longrightarrow>
         session_id_of r = Some (JStr (sessionId (App_init now rnd))))"
proof -
  let ?sid = "sessionId (App_init now rnd)"
  have s: "sound ?sid (run es (App_start now rnd))"
    by (rule sound_run[OF sound_start])
  have "session_id_of r = Some (JStr ?sid)"
    if "issued ?sid r"
      "url r \<in> {''/api/chat'', ''/api/voice'', ''/api/feedback'', ''/api/followup''}" for r
    using that
    by (cases rule: issued.cases)
       (auto simp: session_id_of_def health_request_def chat_request_def feedback_request_def
          followup_request_def voice_request_def analytics_request_def)
  with s show ?thesis by (auto simp: sound_def)
qed

theorem session_id_constant_witness:
  "\<exists>r. r \<in> set (requests (trace (run
            [HealthCheck (Resolved \<lparr>ok = True, status = 200, statusText = ''OK'', json = None\<rparr>),
             ChatInput ''hi'',
             ChatSend \<lparr>now_start = 6, reply_c = Rejected, now_end = 7\<rparr>]
            (App_start 5 ''0.k2j4h6x8z1q''))))
       \<and> url r = ''/api/chat''
       \<and> session_id_of r = Some (JStr ''session_5_k2j4h6x8z'')"
proof -
  let ?es = "[HealthCheck (Resolved \<lparr>ok = True, status = 200, statusText = ''OK'', json = None\<rparr>),
             ChatInput ''hi'',
             ChatSend \<lparr>now_start = 6, reply_c = Rejected, now_end = 7\<rparr>]"
  let ?r = "\<lparr>url = ''/api/chat'', http_method = ''POST'',
             headers = [(''Content-Type'', ''application/json'')],
             body = JsonBody (JObj [(''message'', JStr ''hi''),
                                    (''session_id'', JStr ''session_5_k2j4h6x8z'')])\<rparr>"
  have mem: "?r \<in> set (requests (trace (run ?es (App_start 5 ''0.k2j4h6x8z1q''))))"
    by code_simp
  have sid: "sessionId (App_init 5 ''0.k2j4h6x8z1q'') = ''session_5_k2j4h6x8z''"
    by code_simp
  from session_id_constant[of ?es 5 "''0.k2j4h6x8z1q''"] mem
  have "url ?r \<in> {''/api/chat'', ''/api/voice'', ''/api/feedback'', ''/api/followup''} \<longrightarrow>
         session_id_of ?r = Some (JStr (sessionId (App_init 5 ''0.k2j4h6x8z1q'')))"
    by blast
  then have "session_id_of ?r = Some (JStr ''session_5_k2j4h6x8z'')"
    unfolding sid by simp
  with mem show ?thesis
    by (intro exI[of _ ?r]) simp
qed

subsection \<open>Analytics\<close>

lemma or_zero_lookup: "or_zero v = (case v of None \<Rightarrow> 0 | Some n \<Rightarrow> n)"
  by (simp add: or_zero_def split: option.splits)

lemma daily_loop_eq:
  "daily_loop today daily i days =
     days @ map (\<lambda>j. \<lparr> date_d = format_MMM_dd (today - j),
                        interactions = or_zero (map_of daily (format_yyyy_MM_dd (today - j))) \<rparr>)
                (rev [0..i])"
proof (induction today daily i days rule: daily_loop.induct)
  case (1 today daily i days)
  show ?case
  proof (cases "0 \<le> i")
    case True
    then have "rev [0..i] = i # rev [0..i - 1]"
      by (simp add: upto_rec2)
    with True "1.IH" show ?thesis
      by (subst daily_loop.simps) simp
  next
    case False
    then show ?thesis
      by (subst daily_loop.simps) simp
  qed
qed

lemma rev_upto_as_map: "rev [0..n - 1] = map (\<lambda>k. n - 1 - int k) [0..<nat n]"
proof (cases "0 < n")
  case True
  have "[0..n - 1] = map int [0..<nat n]"
  proof (rule nth_equalityI)
    show "length [0..n - 1] = length (map int [0..<nat n])" using True by simp
  next
    fix i assume "i < length [0..n - 1]"
    then show "[0..n - 1] ! i = map int [0..<nat n] ! i" using True by simp
  qed
  then have "rev [0..n - 1] = map int (rev [0..<nat n])"
    by (simp add: rev_map)
  also have "rev [0..<nat n] = map (\<lambda>k. nat n - 1 - k) [0..<nat n]"
    by (rule nth_equalityI) (simp_all add: rev_nth)
  also have "map int (map (\<lambda>k. nat n - 1 - k) [0..<nat n]) = map (\<lambda>k. n - 1 - int k) [0..<nat n]"
    using True by (auto simp: of_nat_diff)
  finally show ?thesis .
next
  case False
  then show ?thesis by simp
qed

text \<open>
  Claim C9. For a rollup that has \<open>daily_interactions\<close>, \<open>processDailyData\<close> returns one
  entry for each of the \<open>n\<close> calendar days from \<open>n - 1\<close> days ago to today, oldest first
  (none when \<open>n\<close> is not positive): the entry of a day is labelled with that day and
  holds the count recorded under the day's \<open>yyyy-MM-dd\<close> key, or 0 when the key is absent.
  (Without \<open>daily_interactions\<close> the guard of the function returns the empty list.)
\<close>

theorem daily_data_entries:
  assumes "daily_interactions a = Some daily"
  shows "length (processDailyData today n a) = nat n
       \<and> processDailyData today n a =
           map (\<lambda>k. \<lparr> date_d = format_MMM_dd (today - (n - 1) + int k),
                        interactions =
                          (case map_of daily (format_yyyy_MM_dd (today - (n - 1) + int k)) of
                             None \<Rightarrow> 0 | Some v \<Rightarrow> v) \<rparr>)
               [0..<nat n]"
proof -
  have "processDailyData today n a =
           map (\<lambda>k. \<lparr> date_d = format_MMM_dd (today - (n - 1) + int k),
                        interactions =
                          (case map_of daily (format_yyyy_MM_dd (today - (n - 1) + int k)) of
                             None \<Rightarrow> 0 | Some v \<Rightarrow> v) \<rparr>)
               [0..<nat n]"
    using assms
    by (simp add: processDailyData_def daily_loop_eq rev_upto_as_map or_zero_lookup o_def
          algebra_simps)
  then show ?thesis by simp
qed

theorem daily_data_entries_witness:
  "length (processDailyData 19723 3
      \<lparr> total_interactions = Some 6, unique_sessions = None, average_processing_time = None,
        intent_distribution = None, channel_distribution = None,
        daily_interactions = Some [(''2023-12-31'', 4), (''2024-01-01'', 2)],
        average_confidence = None, entity_distribution = None \<rparr>) = 3
   \<and> processDailyData 19723 3
      \<lparr> total_interactions = Some 6, unique_sessions = None, average_processing_time = None,
        intent_distribution = None, channel_distribution = None,
        daily_interactions = Some [(''2023-12-31'', 4), (''2024-01-01'', 2)],
        average_confidence = None, entity_distribution = None \<rparr>
     = [\<lparr>date_d = ''Dec 30'', interactions = 0\<rparr>,
        \<lparr>date_d = ''Dec 31'', interactions = 4\<rparr>,
        \<lparr>date_d = ''Jan 01'', interactions = 2\<rparr>]"
proof -
  let ?a = "\<lparr> total_interactions = Some 6, unique_sessions = None, average_processing_time = None,
        intent_distribution = None, channel_distribution = None,
        daily_interactions = Some [(''2023-12-31'', 4), (''2024-01-01'', 2 :: nat)],
        average_confidence = None, entity_distribution = None \<rparr>"
  have h: "daily_interactions ?a = Some [(''2023-12-31'', 4), (''2024-01-01'', 2)]" by simp
  have e: "map (\<lambda>k. \<lparr> date_d = format_MMM_dd (19723 - (3 - 1) + int k),
                        interactions =
                          (case map_of [(''2023-12-31'', 4), (''2024-01-01'', 2 :: nat)]
                                  (format_yyyy_MM_dd (19723 - (3 - 1) + int k)) of
                             None \<Rightarrow> 0 | Some v \<Rightarrow> v) \<rparr>)
               [0..<nat 3]
      = [\<lparr>date_d = ''Dec 30'', interactions = 0\<rparr>,
        \<lparr>date_d = ''Dec 31'', interactions = 4\<rparr>,
        \<lparr>date_d = ''Jan 01'', interactions = 2\<rparr>]"
  proof -
    have k: "format_yyyy_MM_dd 19721 = ''2023-12-30''" "format_yyyy_MM_dd 19722 = ''2023-12-31''"
      "format_yyyy_MM_dd 19723 = ''2024-01-01''" "format_MMM_dd 19721 = ''Dec 30''"
      "format_MMM_dd 19722 = ''Dec 31''" "format_MMM_dd 19723 = ''Jan 01''"
      by code_simp+
    have u: "[0..<nat 3] = [0, 1, 2]" by code_simp
    show ?thesis unfolding u by (simp add: k)
  qed
  from daily_data_entries[OF h, of 19723 3] show ?thesis unfolding e by simp
qed

lemma mset_insert_by: "mset (insert_by later x ys) = add_mset x (mset ys)"
  by (induction ys) simp_all

lemma mset_js_sort: "mset (js_sort later xs) = mset xs"
  unfolding js_sort_def by (induction xs) (simp_all add: mset_insert_by)

lemma mset_map_js_sort: "mset (map g (js_sort later xs)) = mset (map g xs)"
  by (simp add: mset_js_sort)

lemma set_js_sort: "set (js_sort later xs) = set xs"
  using mset_js_sort[of later xs] by (metis set_mset_mset)

lemma length_js_sort: "length (js_sort later xs) = length xs"
  using mset_js_sort[of later xs] by (metis size_mset)

lemma processIntentData_entries:
  assumes "intent_distribution a = Some entries"
  shows "mset (map (\<lambda>e. (name_i e, value_i e)) (processIntentData a))
           = mset (map (\<lambda>(k, c). (display_name k, c)) entries)"
    and "\<forall>e \<in> set (processIntentData a).
           percentage e = Math_round (js_mul (js_div (of_count (value_i e))
                                               (of_count_opt (total_interactions a)))
                                       (Finite 100))"
proof -
  let ?f = "\<lambda>(intent, count).
                    \<lparr> name_i = display_name intent,
                      value_i = count,
                      percentage =
                        Math_round (js_mul (js_div (of_count count)
                                                   (of_count_opt (total_interactions a)))
                                           (Finite 100)) \<rparr>"
  have p: "processIntentData a = js_sort (\<lambda>x y. int (value_i y) - int (value_i x) > 0) (map ?f entries)"
    using assms by (simp add: processIntentData_def)
  show "mset (map (\<lambda>e. (name_i e, value_i e)) (processIntentData a))
           = mset (map (\<lambda>(k, c). (display_name k, c)) entries)"
    unfolding p by (simp add: mset_map_js_sort split_def o_def del: mset_map)
  show "\<forall>e \<in> set (processIntentData a).
           percentage e = Math_round (js_mul (js_div (of_count (value_i e))
                                               (of_count_opt (total_interactions a)))
                                       (Finite 100))"
    unfolding p by (auto simp: set_js_sort)
qed

lemma processChannelData_values:
  "channel_distribution a = Some entries \<Longrightarrow> map value_ch (processChannelData a) = map snd entries"
  by (simp add: processChannelData_def case_prod_beta o_def)

lemma processConfidenceData_entries:
  assumes "average_confidence a = Some entries"
  shows "mset (map (\<lambda>e. (intent_cf e, confidence_cf e)) (processConfidenceData a))
           = mset (map (\<lambda>(k, c). (display_name k, Math_round (js_mul c (Finite 100)))) entries)"
proof -
  let ?f = "\<lambda>(intent, c). \<lparr> intent_cf = display_name intent,
                             confidence_cf = Math_round (js_mul c (Finite 100)) \<rparr>"
  have p: "processConfidenceData a
             = js_sort (\<lambda>x y. is_positive (js_sub (confidence_cf y) (confidence_cf x))) (map ?f entries)"
    using assms by (simp add: processConfidenceData_def)
  show ?thesis
    unfolding p by (simp add: mset_map_js_sort split_def o_def del: mset_map)
qed

lemma fetchAnalytics_loaded:
  assumes "res = Resolved r" "ok r" "json r = Some (BodyObject (Some a))"
  shows "fst (fetchAnalytics now res st)
           = st\<lparr>analyticsData := Some a, lastUpdated := Some now, isLoading_a := False\<rparr>"
  using assms by (simp add: fetchAnalytics_def await_json_def)

lemma analytics_request_url:
  "url (analytics_request st) = ''/api/analytics?days='' @ toString_int (timeRange st)"
  "http_method (analytics_request st) = ''GET''"
  by (simp_all add: analytics_request_def)

lemma issued_analytics_url:
  assumes "issued sid r" "take 14 (url r) = ''/api/analytics''"
  shows "\<exists>d. d \<in> set timeRange_options \<and> url r = ''/api/analytics?days='' @ toString_int d
             \<and> http_method r = ''GET''"
  using assms
  by (cases rule: issued.cases)
     (auto simp: health_request_def chat_request_def feedback_request_def followup_request_def
        voice_request_def analytics_request_def)

text \<open>
  Claim C6. Every request the page ever sends to the analytics endpoint is a GET of
  \<open>/api/analytics?days=d\<close> with \<open>d\<close> one of the integers 7, 14, 30 and 90 the selector
  offers, and the request of \<open>fetchAnalytics\<close> carries the time range selected at that
  moment. After a successful reply with a rollup, the rollup is the state of the component
  and the dashboard shows what the rollup holds: the total interaction count, the unique
  session count and the mean processing time in the cards, every intent with its count and
  the percentage the client computes from the count and the total, every channel count,
  every intent's mean confidence (as a rounded percentage), and the six largest entity
  counts.
\<close>

theorem analytics_query_and_rollup:
  "(\<forall>r. r \<in> set (requests (trace (run es (App_start t0 rnd)))) \<and> take 14 (url r) = ''/api/analytics''
      \<longrightarrow> (\<exists>d. d \<in> set timeRange_options
                \<and> url r = ''/api/analytics?days='' @ toString_int d \<and> http_method r = ''GET''))
   \<and> requests (snd (fetchAnalytics now res st)) =
        [\<lparr> url = ''/api/analytics?days='' @ toString_int (timeRange st), http_method = ''GET'',
            headers = [], body = NoBody \<rparr>]
   \<and> (\<forall>r a. res = Resolved r \<and> ok r \<and> json r = Some (BodyObject (Some a)) \<longrightarrow>
        analyticsData (fst (fetchAnalytics now res st)) = Some a
        \<and> (\<exists>d. render_dashboard today (fst (fetchAnalytics now res st)) = Some d
              \<and> card_total d = total_interactions a
              \<and> card_sessions d = unique_sessions a
              \<and> card_time d = average_processing_time a
              \<and> (\<forall>entries. intent_distribution a = Some entries \<longrightarrow>
                    mset (map (\<lambda>e. (name_i e, value_i e)) (intentData d))
                      = mset (map (\<lambda>(k, c). (display_name k, c)) entries)
                    \<and> (\<forall>e \<in> set (intentData d).
                          percentage e =
                            Math_round (js_mul (js_div (of_count (value_i e))
                                                       (of_count_opt (total_interactions a)))
                                               (Finite 100))))
              \<and> (\<forall>entries. channel_distribution a = Some entries \<longrightarrow>
                    map value_ch (channelData d) = map snd entries)
              \<and> (\<forall>entries. average_confidence a = Some entries \<longrightarrow>
                    mset (map (\<lambda>e. (intent_cf e, confidence_cf e)) (confidenceData d))
                      = mset (map (\<lambda>(k, c). (display_name k, Math_round (js_mul c (Finite 100))))
                                  entries))
              \<and> (\<forall>entries. entity_distribution a = Some entries \<longrightarrow>
                    entityData d = take 6 (js_sort (\<lambda>x y. int (snd y) - int (snd x) > 0) entries)
                    \<and> set (entityData d) \<subseteq> set entries)))"
proof (intro conjI allI impI)
  fix r
  assume "r \<in> set (requests (trace (run es (App_start t0 rnd)))) \<and> take 14 (url r) = ''/api/analytics''"
  moreover have "sound (sessionId (App_init t0 rnd)) (run es (App_start t0 rnd))"
    by (rule sound_run[OF sound_start])
  ultimately have "issued (sessionId (App_init t0 rnd)) r" "take 14 (url r) = ''/api/analytics''"
    by (auto simp: sound_def)
  then show "\<exists>d. d \<in> set timeRange_options
                \<and> url r = ''/api/analytics?days='' @ toString_int d \<and> http_method r = ''GET''"
    by (rule issued_analytics_url)
next
  show "requests (snd (fetchAnalytics now res st)) =
        [\<lparr> url = ''/api/analytics?days='' @ toString_int (timeRange st), http_method = ''GET'',
            headers = [], body = NoBody \<rparr>]"
    by (simp add: fetchAnalytics_requests analytics_request_def)
next
  fix r a
  assume h: "res = Resolved r \<and> ok r \<and> json r = Some (BodyObject (Some a))"
  then have f: "fst (fetchAnalytics now res st)
           = st\<lparr>analyticsData := Some a, lastUpdated := Some now, isLoading_a := False\<rparr>"
    using fetchAnalytics_loaded by blast
  show "analyticsData (fst (fetchAnalytics now res st)) = Some a"
    by (simp add: f)
  let ?d = "\<lparr> card_total = total_interactions a,
                    card_sessions = unique_sessions a,
                    card_time = average_processing_time a,
                    intentData = processIntentData a,
                    channelData = processChannelData a,
                    dailyData = processDailyData today (timeRange st) a,
                    confidenceData = processConfidenceData a,
                    entityData =
                      (case entity_distribution a of
                         None \<Rightarrow> []
                       | Some entries \<Rightarrow>
                           take 6 (js_sort (\<lambda>x y. int (snd y) - int (snd x) > 0) entries)) \<rparr>"
  have rd: "render_dashboard today (fst (fetchAnalytics now res st)) = Some ?d"
    by (simp add: f render_dashboard_def)
  have c1: "card_total ?d = total_interactions a" by simp
  have c2: "card_sessions ?d = unique_sessions a" by simp
  have c3: "card_time ?d = average_processing_time a" by simp
  have c4: "\<forall>entries. intent_distribution a = Some entries \<longrightarrow>
                    mset (map (\<lambda>e. (name_i e, value_i e)) (intentData ?d))
                      = mset (map (\<lambda>(k, c). (display_name k, c)) entries)
                    \<and> (\<forall>e \<in> set (intentData ?d).
                          percentage e =
                            Math_round (js_mul (js_div (of_count (value_i e))
                                                       (of_count_opt (total_interactions a)))
                                               (Finite 100)))"
    using processIntentData_entries[of a] by simp
  have c5: "\<forall>entries. channel_distribution a = Some entries \<longrightarrow>
                    map value_ch (channelData ?d) = map snd entries"
    by (simp add: processChannelData_values)
  have c6: "\<forall>entries. average_confidence a = Some entries \<longrightarrow>
                    mset (map (\<lambda>e. (intent_cf e, confidence_cf e)) (confidenceData ?d))
                      = mset (map (\<lambda>(k, c). (display_name k, Math_round (js_mul c (Finite 100))))
                                  entries)"
    using processConfidenceData_entries[of a] by simp
  have c7: "\<forall>entries. entity_distribution a = Some entries \<longrightarrow>
                    entityData ?d = take 6 (js_sort (\<lambda>x y. int (snd y) - int (snd x) > 0) entries)
                    \<and> set (entityData ?d) \<subseteq> set entries"
    by (auto simp: set_js_sort dest!: in_set_takeD)
  show "\<exists>d. render_dashboard today (fst (fetchAnalytics now res st)) = Some d
              \<and> card_total d = total_interactions a
              \<and> card_sessions d = unique_sessions a
              \<and> card_time d = average_processing_time a
              \<and> (\<forall>entries. intent_distribution a = Some entries \<longrightarrow>
                    mset (map (\<lambda>e. (name_i e, value_i e)) (intentData d))
                      = mset (map (\<lambda>(k, c). (display_name k, c)) entries)
                    \<and> (\<forall>e \<in> set (intentData d).
                          percentage e =
                            Math_round (js_mul (js_div (of_count (value_i e))
                                                       (of_count_opt (total_interactions a)))
                                               (Finite 100))))
              \<and> (\<forall>entries. channel_distribution a = Some entries \<longrightarrow>
                    map value_ch (channelData d) = map snd entries)
              \<and> (\<forall>entries. average_confidence a = Some entries \<longrightarrow>
                    mset (map (\<lambda>e. (intent_cf e, confidence_cf e)) (confidenceData d))
                      = mset (map (\<lambda>(k, c). (display_name k, Math_round (js_mul c (Finite 100))))
                                  entries))
              \<and> (\<forall>entries. entity_distribution a = Some entries \<longrightarrow>
                    entityData d = take 6 (js_sort (\<lambda>x y. int (snd y) - int (snd x) > 0) entries)
                    \<and> set (entityData d) \<subseteq> set entries)"
    by (rule exI[of _ ?d], intro conjI) (fact rd c1 c2 c3 c4 c5 c6 c7)+
qed

theorem analytics_query_and_rollup_witness:
  "\<lparr>url = ''/api/analytics?days=7'', http_method = ''GET'', headers = [], body = NoBody\<rparr>
     \<in> set (requests (trace (run
          [SelectTab ''analytics'' 9
             (Resolved \<lparr>ok = False, status = 503, statusText = ''Service Unavailable'', json = None\<rparr>)]
          (App_start 5 ''0.k2j4h6x8z1q''))))
   \<and> (\<exists>d. render_dashboard 19723 (fst (fetchAnalytics 9
          (Resolved \<lparr>ok = True, status = 200, statusText = ''OK'',
             json = Some (BodyObject (Some
               \<lparr> total_interactions = Some 6, unique_sessions = Some 2,
                 average_processing_time = Some (Finite (1 / 2)),
                 intent_distribution = Some [(''tuition_fees'', 2), (''greeting'', 4)],
                 channel_distribution = Some [(''text'', 5), (''voice'', 1)],
                 daily_interactions = Some [(''2024-01-01'', 6)],
                 average_confidence = Some [(''greeting'', Finite (1 / 2))],
                 entity_distribution = Some [(''program_name'', 3)] \<rparr>))\<rparr>)
          analytics_mount)) = Some d
        \<and> card_total d = Some 6 \<and> card_sessions d = Some 2
        \<and> map value_ch (channelData d) = [5, 1]
        \<and> mset (map (\<lambda>e. (name_i e, value_i e)) (intentData d))
             = {#(''Tuition Fees'', 2), (''Greeting'', 4)#})"
proof -
  let ?r = "\<lparr>url = ''/api/analytics?days=7'', http_method = ''GET'', headers = [], body = NoBody\<rparr>"
  let ?es = "[SelectTab ''analytics'' 9
             (Resolved \<lparr>ok = False, status = 503, statusText = ''Service Unavailable'', json = None\<rparr>)]"
  let ?a = "\<lparr> total_interactions = Some 6, unique_sessions = Some 2,
                 average_processing_time = Some (Finite (1 / 2)),
                 intent_distribution = Some [(''tuition_fees'', 2), (''greeting'', 4)],
                 channel_distribution = Some [(''text'', 5), (''voice'', 1)],
                 daily_interactions = Some [(''2024-01-01'', 6)],
                 average_confidence = Some [(''greeting'', Finite (1 / 2))],
                 entity_distribution = Some [(''program_name'', 3)] \<rparr>"
  let ?resp = "\<lparr>ok = True, status = 200, statusText = ''OK'', json = Some (BodyObject (Some ?a))\<rparr>"
  note t = analytics_query_and_rollup[of ?es 5 "''0.k2j4h6x8z1q''" 9 "Resolved ?resp" analytics_mount 19723]
  have mem: "?r \<in> set (requests (trace (run ?es (App_start 5 ''0.k2j4h6x8z1q''))))"
    by code_simp
  have hyp: "Resolved ?resp = Resolved ?resp \<and> ok ?resp \<and> json ?resp = Some (BodyObject (Some ?a))"
    by simp
  have ih: "intent_distribution ?a = Some [(''tuition_fees'', 2), (''greeting'', 4)]" by simp
  have ch: "channel_distribution ?a = Some [(''text'', 5), (''voice'', 1)]" by simp
  have n: "display_name ''tuition_fees'' = ''Tuition Fees''" "display_name ''greeting'' = ''Greeting''"
    by code_simp+
  note q = t[THEN conjunct2, THEN conjunct2, THEN spec, THEN spec, THEN mp, OF hyp, THEN conjunct2]
  from q show ?thesis
  proof (elim exE conjE)
    fix d
    assume d: "render_dashboard 19723 (fst (fetchAnalytics 9 (Resolved ?resp) analytics_mount)) = Some d"
      "card_total d = total_interactions ?a" "card_sessions d = unique_sessions ?a"
      "\<forall>entries. intent_distribution ?a = Some entries \<longrightarrow>
                    mset (map (\<lambda>e. (name_i e, value_i e)) (intentData d))
                      = mset (map (\<lambda>(k, c). (display_name k, c)) entries)
                    \<and> (\<forall>e \<in> set (intentData d).
                          percentage e =
                            Math_round (js_mul (js_div (of_count (value_i e))
                                                       (of_count_opt (total_interactions ?a)))
                                               (Finite 100)))"
      "\<forall>entries. channel_distribution ?a = Some entries \<longrightarrow>
                    map value_ch (channelData d) = map snd entries"
    from d(4)[THEN spec, THEN mp, OF ih, THEN conjunct1]
    have i: "mset (map (\<lambda>e. (name_i e, value_i e)) (intentData d))
             = {#(''Tuition Fees'', 2), (''Greeting'', 4)#}"
      by (simp add: n)
    from d(5)[THEN spec, THEN mp, OF ch] have c: "map value_ch (channelData d) = [5, 1]" by simp
    from d(2,3) have k: "card_total d = Some 6" "card_sessions d = Some 2" by simp_all
    show ?thesis
      by (intro conjI exI[of _ d]) (fact mem d(1) k c i)+
  qed
qed

subsection \<open>Double-precision rounding\<close>

lemma pow2_power_int: "pow2 e = power_int 2 e"
  by (simp add: pow2_def power_int_def field_simps)

lemma pow2_pos [simp]: "0 < pow2 e"
  by (simp add: pow2_power_int)

lemma pow2_add: "pow2 (a + b) = pow2 a * pow2 b"
  by (simp add: pow2_power_int power_int_add)

lemma pow2_diff: "pow2 (a - b) = pow2 a / pow2 b"
  by (simp add: pow2_power_int power_int_diff)

lemma pow2_mono: "a \<le> b \<Longrightarrow> pow2 a \<le> pow2 b"
  by (simp add: pow2_power_int power_int_increasing)

lemma pow2_strict_mono: "a < b \<Longrightarrow> pow2 a < pow2 b"
  by (simp add: pow2_power_int power_int_strict_increasing)

lemma pow2_le_iff: "pow2 a \<le> pow2 b \<longleftrightarrow> a \<le> b"
  using pow2_mono[of a b] pow2_strict_mono[of b a] by (auto simp: not_le[symmetric])

lemma pow2_less_iff: "pow2 a < pow2 b \<longleftrightarrow> a < b"
  using pow2_le_iff[of b a] by (auto simp: not_le[symmetric])

lemma pow2_of_nat: "pow2 (int n) = 2 ^ n"
  by (simp add: pow2_def)

lemma pow2_0 [simp]: "pow2 0 = 1"
  by (simp add: pow2_def)

lemma floorlog_pow2_bounds:
  assumes "0 < (a :: int)"
  shows "pow2 (int (floorlog 2 (nat a)) - 1) \<le> of_int a"
    and "(of_int a :: rat) < pow2 (int (floorlog 2 (nat a)))"
proof -
  define l where "l = floorlog 2 (nat a)"
  have b: "2 ^ (l - 1) \<le> nat a \<and> nat a < 2 ^ l"
    unfolding l_def using assms by (intro floorlog_bounds) auto
  have "l \<noteq> 0"
    unfolding l_def using assms by (simp add: floorlog_eq_zero_iff)
  then obtain k where k: "l = Suc k" by (cases l) auto
  have a: "of_int a = (of_nat (nat a) :: rat)" using assms by simp
  from b k have "2 ^ k \<le> nat a" by simp
  then have "(of_nat (2 ^ k) :: rat) \<le> of_nat (nat a)" by (simp only: of_nat_le_iff)
  then have "(2 :: rat) ^ k \<le> of_int a" unfolding a by simp
  moreover have "pow2 (int l - 1) = 2 ^ k" unfolding k by (simp add: pow2_def)
  ultimately show "pow2 (int (floorlog 2 (nat a)) - 1) \<le> of_int a"
    unfolding l_def by simp
  from b have "nat a < 2 ^ l" by simp
  then have "(of_nat (nat a) :: rat) < of_nat (2 ^ l)" by (simp only: of_nat_less_iff)
  then have "of_int a < (2 :: rat) ^ l" unfolding a by simp
  moreover have "pow2 (int l) = 2 ^ l" by (simp add: pow2_def)
  ultimately show "(of_int a :: rat) < pow2 (int (floorlog 2 (nat a)))"
    unfolding l_def by simp
qed

lemma pow2_nonneg [simp]: "0 \<le> pow2 e"
  using pow2_pos[of e] by (rule less_imp_le)

lemma floor_log2_bounds:
  assumes "0 < x"
  shows "pow2 (floor_log2 x) \<le> x \<and> x < pow2 (floor_log2 x + 1)"
proof -
  obtain a b where q: "quotient_of x = (a, b)" by (cases "quotient_of x")
  then have b: "0 < b" and x: "x = of_int a / of_int b"
    using quotient_of_denom_pos quotient_of_div by blast+
  with assms have a: "0 < a"
    by (simp add: zero_less_divide_iff)
  define la lb where "la = int (floorlog 2 (nat a))" and "lb = int (floorlog 2 (nat b))"
  note ra = floorlog_pow2_bounds[OF a, folded la_def]
  note rb = floorlog_pow2_bounds[OF b, folded lb_def]
  define d where "d = la - lb"
  have bpos: "(0 :: rat) < of_int b" using b by simp
  have lo: "pow2 (d - 1) \<le> x"
  proof -
    have "pow2 (d - 1) * of_int b \<le> pow2 (d - 1) * pow2 lb"
      using rb(2) by (intro mult_left_mono) simp_all
    also have "\<dots> = pow2 (la - 1)"
      unfolding d_def pow2_add[symmetric] by simp
    also have "\<dots> \<le> of_int a" by (rule ra(1))
    finally have "pow2 (d - 1) * of_int b \<le> of_int a" .
    then have "pow2 (d - 1) \<le> of_int a / of_int b"
      using bpos by (simp add: pos_le_divide_eq)
    then show ?thesis by (simp only: x)
  qed
  have hi: "x < pow2 (d + 1)"
  proof -
    have "of_int a < pow2 la" by (rule ra(2))
    also have "\<dots> = pow2 (d + 1) * pow2 (lb - 1)"
      unfolding d_def pow2_add[symmetric] by simp
    also have "\<dots> \<le> pow2 (d + 1) * of_int b"
      using rb(1) by (intro mult_left_mono) simp_all
    finally have "of_int a < pow2 (d + 1) * of_int b" .
    then have "of_int a / of_int b < pow2 (d + 1)"
      using bpos by (simp add: pos_divide_less_eq)
    then show ?thesis by (simp only: x)
  qed
  have fl: "floor_log2 x = (if pow2 d \<le> x then d else d - 1)"
    unfolding floor_log2_def q d_def la_def lb_def by simp
  show ?thesis
  proof (cases "pow2 d \<le> x")
    case True
    with fl hi show ?thesis by simp
  next
    case False
    with fl lo show ?thesis by simp
  qed
qed

lemma floor_log2_unique:
  assumes "pow2 e \<le> x" "x < pow2 (e + 1)"
  shows "floor_log2 x = e"
proof -
  have "0 < x" using assms(1) pow2_pos[of e] by linarith
  from floor_log2_bounds[OF this] assms
  have "pow2 (floor_log2 x) < pow2 (e + 1)" "pow2 e < pow2 (floor_log2 x + 1)"
    by linarith+
  then show ?thesis by (simp add: pow2_less_iff)
qed

lemma round_half_even_error: "\<bar>of_int (round_half_even q) - q\<bar> \<le> 1 / 2"
proof -
  have "of_int \<lfloor>q\<rfloor> \<le> q" "q < of_int \<lfloor>q\<rfloor> + 1" by linarith+
  then show ?thesis
    unfolding round_half_even_def Let_def by (auto simp: abs_le_iff)
qed

lemma round_half_even_of_int [simp]: "round_half_even (of_int k) = k"
  by (simp add: round_half_even_def)

lemma fl_pos_eq:
  assumes "pow2 e \<le> x" "x < pow2 (e + 1)" "- 1022 \<le> e" "e \<le> 1022"
  shows "fl_pos x = Finite (of_int (round_half_even (x / pow2 (e - 52))) * pow2 (e - 52))"
    and "\<bar>of_int (round_half_even (x / pow2 (e - 52))) * pow2 (e - 52) - x\<bar> \<le> pow2 (e - 53)"
proof -
  define u where "u = pow2 (e - 52)"
  define r where "r = round_half_even (x / u)"
  have upos: "0 < u" unfolding u_def by simp
  have fe: "floor_log2 x = e" using assms(1,2) by (rule floor_log2_unique)
  have "\<bar>of_int r - x / u\<bar> \<le> 1 / 2" unfolding r_def by (rule round_half_even_error)
  then have "\<bar>of_int r - x / u\<bar> * u \<le> 1 / 2 * u"
    using upos by (intro mult_right_mono) simp_all
  moreover have "\<bar>of_int r - x / u\<bar> * u = \<bar>of_int r * u - x\<bar>"
  proof -
    have "(of_int r - x / u) * u = of_int r * u - x"
      using upos by (simp add: left_diff_distrib)
    then have "\<bar>of_int r * u - x\<bar> = \<bar>of_int r - x / u\<bar> * \<bar>u\<bar>"
      by (metis abs_mult)
    then show ?thesis using upos by simp
  qed
  moreover have "1 / 2 * u = pow2 (e - 53)"
  proof -
    have "pow2 (e - 53) = pow2 (e - 52) * pow2 (- 1)"
      using pow2_add[of "e - 52" "- 1"] by simp
    moreover have "pow2 (- 1) = 1 / 2" by (simp add: pow2_def)
    ultimately show ?thesis unfolding u_def by simp
  qed
  ultimately have err: "\<bar>of_int r * u - x\<bar> \<le> pow2 (e - 53)" by simp
  then show "\<bar>of_int (round_half_even (x / pow2 (e - 52))) * pow2 (e - 52) - x\<bar> \<le> pow2 (e - 53)"
    unfolding r_def u_def .
  have "pow2 (e - 53) < pow2 (e + 1)" by (simp add: pow2_less_iff)
  with err assms(2) have "of_int r * u < pow2 (e + 1) + pow2 (e + 1)" by linarith
  also have "\<dots> = pow2 (e + 2)"
  proof -
    have "pow2 (e + 2) = pow2 (e + 1) * pow2 1"
      using pow2_add[of "e + 1" 1] by (simp add: add.commute)
    moreover have "pow2 1 = 2" by (simp add: pow2_def)
    ultimately show ?thesis by simp
  qed
  also have "\<dots> \<le> pow2 1024" using assms(4) by (simp add: pow2_le_iff)
  finally have "\<not> pow2 1024 \<le> of_int r * u" by simp
  then show "fl_pos x = Finite (of_int (round_half_even (x / pow2 (e - 52))) * pow2 (e - 52))"
    using assms(3) unfolding fl_pos_def fe Let_def r_def u_def by (simp add: max_def)
qed

lemma fl_relative_error:
  assumes "pow2 (- 1022) \<le> x" "x < pow2 1023"
  shows "\<exists>y. fl x = Finite y \<and> \<bar>y - x\<bar> \<le> x * pow2 (- 53)"
proof -
  have xpos: "0 < x" using assms(1) pow2_pos[of "- 1022"] by linarith
  define e where "e = floor_log2 x"
  from floor_log2_bounds[OF xpos] have b: "pow2 e \<le> x" "x < pow2 (e + 1)"
    unfolding e_def by simp_all
  from b(2) assms(1) have "pow2 (- 1022) < pow2 (e + 1)" by linarith
  then have lo: "- 1022 \<le> e" by (simp add: pow2_less_iff)
  from b(1) assms(2) have "pow2 e < pow2 1023" by linarith
  then have hi: "e \<le> 1022" by (simp add: pow2_less_iff)
  note f = fl_pos_eq[OF b lo hi]
  have "pow2 (e - 53) = pow2 e * pow2 (- 53)"
    using pow2_add[of e "- 53"] by simp
  also have "\<dots> \<le> x * pow2 (- 53)"
    using b(1) by (intro mult_right_mono) simp_all
  finally have "pow2 (e - 53) \<le> x * pow2 (- 53)" .
  with f(2) have "\<bar>of_int (round_half_even (x / pow2 (e - 52))) * pow2 (e - 52) - x\<bar> \<le> x * pow2 (- 53)"
    by linarith
  with f(1) xpos show ?thesis by (simp add: fl_def)
qed

lemma fl_of_nat:
  assumes "n < 2 ^ 53"
  shows "fl (of_nat n) = Finite (of_nat n)"
proof (cases "n = 0")
  case True
  then show ?thesis by (simp add: fl_def)
next
  case False
  define x :: rat where "x = of_nat n"
  have x1: "1 \<le> x" unfolding x_def using False by simp
  then have xpos: "0 < x" by simp
  define e where "e = floor_log2 x"
  from floor_log2_bounds[OF xpos] have b: "pow2 e \<le> x" "x < pow2 (e + 1)"
    unfolding e_def by simp_all
  have "pow2 0 < pow2 (e + 1)" using b(2) x1 by simp
  then have "0 < e + 1" by (simp only: pow2_less_iff)
  then have e0: "0 \<le> e" by simp
  have "x < 2 ^ 53" unfolding x_def using assms by (metis of_nat_less_iff of_nat_numeral of_nat_power)
  then have "pow2 e < pow2 53" using b(1) by (simp add: pow2_def)
  then have e52: "e \<le> 52" by (simp add: pow2_less_iff)
  have lo: "- 1022 \<le> e" and hi: "e \<le> 1022" using e0 e52 by simp_all
  note f = fl_pos_eq(1)[OF b lo hi]
  define k where "k = nat (52 - e)"
  have u: "pow2 (e - 52) = 1 / 2 ^ k"
    using e52 by (simp add: pow2_def k_def)
  have "x / pow2 (e - 52) = of_int (int n * 2 ^ k)"
    unfolding u x_def by simp
  then have r: "round_half_even (x / pow2 (e - 52)) = int n * 2 ^ k"
    by (simp only: round_half_even_of_int)
  have "of_int (int n * 2 ^ k) * pow2 (e - 52) = x"
    unfolding u x_def by simp
  with f r have "fl_pos x = Finite x" by simp
  then show ?thesis using xpos by (simp add: fl_def x_def)
qed

lemma round_half_even_near:
  assumes "of_int k - 1 / 2 < q" "q < of_int k + 1 / 2"
  shows "round_half_even q = k"
proof -
  have "\<lfloor>q\<rfloor> = k \<or> \<lfloor>q\<rfloor> = k - 1" using assms by linarith
  then show ?thesis
  proof
    assume f: "\<lfloor>q\<rfloor> = k"
    with assms show ?thesis by (simp add: round_half_even_def)
  next
    assume f: "\<lfloor>q\<rfloor> = k - 1"
    with assms show ?thesis by (simp add: round_half_even_def)
  qed
qed

lemma of_count_exact: "n < 2 ^ 53 \<Longrightarrow> of_count n = Finite (of_nat n)"
  by (simp add: of_count_def fl_of_nat)

lemma pow2_m53: "pow2 (- 53) = 1 / 9007199254740992"
  by (simp add: pow2_def)

lemma percent_product:
  assumes "0 < t" "t < 2 ^ 53" "c \<le> 2 ^ 43"
  shows "\<exists>y. js_mul (js_div (of_count c) (of_count t)) (Finite 100) = Finite y
             \<and> \<bar>y - 100 * of_nat c / of_nat t\<bar> < 1 / (2 * of_nat t)"
proof -
  have c53: "c < 2 ^ 53" using assms(3) by (rule le_less_trans) simp
  have oc: "of_count c = Finite (of_nat c)" using c53 by (rule of_count_exact)
  have ot: "of_count t = Finite (of_nat t)" using assms(2) by (rule of_count_exact)
  have tpos: "(0 :: rat) < of_nat t" using assms(1) by simp
  have tle: "(of_nat t :: rat) \<le> 9007199254740992"
  proof -
    have "(of_nat t :: rat) \<le> of_nat (2 ^ 53)" using assms(2) by (simp only: of_nat_le_iff)
    then show ?thesis by simp
  qed
  have cle: "(of_nat c :: rat) \<le> 8796093022208"
  proof -
    have "(of_nat c :: rat) \<le> of_nat (2 ^ 43)" using assms(3) by (simp only: of_nat_le_iff)
    then show ?thesis by simp
  qed
  show ?thesis
  proof (cases "c = 0")
    case True
    with oc have "of_count 0 = Finite 0" by simp
    with True show ?thesis using assms(1) by (simp add: ot fl_def)
  next
    case False
    define x1 :: rat where "x1 = of_nat c / of_nat t"
    have c1: "(1 :: rat) \<le> of_nat c" using False by simp
    have x1lo: "1 / 9007199254740992 \<le> x1"
    proof -
      have "1 / 9007199254740992 \<le> 1 / (of_nat t :: rat)"
        using tpos tle by (simp add: frac_le)
      also have "\<dots> \<le> x1" unfolding x1_def using tpos c1 by (simp add: divide_right_mono)
      finally show ?thesis .
    qed
    have x1hi: "x1 \<le> 8796093022208"
    proof -
      have "(1 :: rat) \<le> of_nat t" using assms(1) by simp
      then have "x1 \<le> of_nat c" unfolding x1_def using c1
        by (simp add: pos_divide_le_eq mult_le_cancel_left1)
      with cle show ?thesis by linarith
    qed
    have x1pos: "0 < x1" using x1lo by linarith
    have "pow2 (- 1022) \<le> pow2 (- 53)" by (simp add: pow2_le_iff)
    with x1lo have r1: "pow2 (- 1022) \<le> x1" by (simp add: pow2_m53)
    have "pow2 44 \<le> pow2 1023" by (simp add: pow2_le_iff)
    moreover have "pow2 44 = 17592186044416" by (simp add: pow2_def)
    ultimately have big: "17592186044416 \<le> pow2 1023" by simp
    with x1hi have r2: "x1 < pow2 1023" by linarith
    from fl_relative_error[OF r1 r2] obtain y1 where
      y1: "fl x1 = Finite y1" "\<bar>y1 - x1\<bar> \<le> x1 * (1 / 9007199254740992)"
      by (auto simp: pow2_m53)
    have d: "js_div (of_count c) (of_count t) = Finite y1"
      using assms(1) y1(1) by (simp add: oc ot x1_def)
    define x2 where "x2 = y1 * 100"
    have m: "js_mul (Finite y1) (Finite 100) = fl x2"
      by (simp add: x2_def)
    have y1b: "x1 / 2 \<le> y1" "y1 \<le> 2 * x1"
      using y1(2) x1pos by linarith+
    have "pow2 (- 1022) \<le> pow2 (- 53)" by (simp add: pow2_le_iff)
    with y1b(1) x1lo have s1: "pow2 (- 1022) \<le> x2"
      by (simp add: pow2_m53 x2_def)
    have "pow2 51 \<le> pow2 1023" by (simp add: pow2_le_iff)
    moreover have "pow2 51 = 2251799813685248" by (simp add: pow2_def)
    ultimately have big2: "2251799813685248 \<le> pow2 1023" by simp
    with y1b(2) x1hi have s2: "x2 < pow2 1023"
      unfolding x2_def by linarith
    from fl_relative_error[OF s1 s2] obtain y2 where
      y2: "fl x2 = Finite y2" "\<bar>y2 - x2\<bar> \<le> x2 * (1 / 9007199254740992)"
      by (auto simp: pow2_m53)
    have e: "\<bar>y2 - 100 * x1\<bar> \<le> 300 * x1 * (1 / 9007199254740992)"
      using y2(2) y1(2) y1b x1pos unfolding x2_def by linarith
    have "300 * x1 * (1 / 9007199254740992) < 1 / (2 * of_nat t)"
    proof -
      have "600 * (of_nat c :: rat) < 9007199254740992" using cle by linarith
      then have "600 * of_nat c / (9007199254740992 * of_nat t) < (1 :: rat) / of_nat t"
        using tpos by (simp add: field_simps)
      then show ?thesis unfolding x1_def using tpos by (simp add: field_simps)
    qed
    with e have "\<bar>y2 - 100 * of_nat c / of_nat t\<bar> < 1 / (2 * of_nat t)"
      unfolding x1_def by simp
    with d m y2(1) show ?thesis by simp
  qed
qed

lemma round_near_ratio:
  fixes y z :: rat
  assumes "0 < t" and z: "z = 100 * of_nat c / of_nat t"
    and near: "\<bar>y - z\<bar> < 1 / (2 * of_nat t)"
  shows "(frac z \<noteq> 1 / 2 \<longrightarrow> \<lfloor>y + 1 / 2\<rfloor> = \<lfloor>z + 1 / 2\<rfloor>)
       \<and> (\<lfloor>y + 1 / 2\<rfloor> = \<lfloor>z + 1 / 2\<rfloor> \<or> \<lfloor>y + 1 / 2\<rfloor> = \<lfloor>z + 1 / 2\<rfloor> - 1)"
proof -
  define m where "m = \<lfloor>z + 1 / 2\<rfloor>"
  define N :: int where "N = 200 * int c + int t - 2 * m * int t"
  have tpos: "(0 :: rat) < of_nat t" using assms(1) by simp
  have t1: "(1 :: rat) \<le> of_nat t" using assms(1) by simp
  have eps: "1 / (2 * of_nat t) \<le> (1 / 2 :: rat)" using t1 by (simp add: field_simps)
  have Neq: "of_int N = (z + 1 / 2 - of_int m) * (2 * of_nat t)"
    unfolding N_def z using tpos by (simp add: field_simps)
  have mb: "of_int m \<le> z + 1 / 2" "z + 1 / 2 < of_int m + 1"
    unfolding m_def by linarith+
  have up: "1 / (2 * of_nat t) \<le> of_int m + 1 - (z + 1 / 2)"
  proof -
    have "of_int (2 * int t - N) = (of_int m + 1 - (z + 1 / 2)) * (2 * of_nat t)"
      unfolding of_int_diff Neq by (simp add: field_simps)
    moreover have "0 < (of_int m + 1 - (z + 1 / 2)) * (2 * of_nat t)"
      using mb(2) tpos by simp
    ultimately have "(0 :: rat) < of_int (2 * int t - N)" by simp
    then have "1 \<le> 2 * int t - N" by simp
    then have "(1 :: rat) \<le> of_int (2 * int t - N)" by (simp only: of_int_1_le_iff)
    then have "1 \<le> (of_int m + 1 - (z + 1 / 2)) * (2 * of_nat t)"
      using \<open>of_int (2 * int t - N) = (of_int m + 1 - (z + 1 / 2)) * (2 * of_nat t)\<close> by simp
    then show ?thesis using tpos by (simp add: field_simps)
  qed
  have N0: "0 \<le> N"
  proof -
    have "0 \<le> (z + 1 / 2 - of_int m) * (2 * of_nat t)" using mb(1) tpos by simp
    then have "(0 :: rat) \<le> of_int N" unfolding Neq .
    then show ?thesis by simp
  qed
  show ?thesis
  proof (cases "N = 0")
    case True
    then have "(z + 1 / 2 - of_int m) * (2 * of_nat t) = 0" using Neq by simp
    then have zm: "z = of_int m - 1 / 2" using tpos by simp
    then have "\<lfloor>z\<rfloor> = m - 1" by linarith
    then have tie: "frac z = 1 / 2" unfolding frac_def zm by simp
    have "of_int m - 1 < y + 1 / 2" "y + 1 / 2 < of_int m + 1"
      using near eps zm by (simp_all add: abs_less_iff)
    then have "\<lfloor>y + 1 / 2\<rfloor> = m \<or> \<lfloor>y + 1 / 2\<rfloor> = m - 1" by linarith
    with tie show ?thesis unfolding m_def by simp
  next
    case False
    with N0 have "1 \<le> N" by simp
    then have "(1 :: rat) \<le> of_int N" by (simp only: of_int_1_le_iff)
    then have "1 \<le> (z + 1 / 2 - of_int m) * (2 * of_nat t)" unfolding Neq .
    then have lo: "1 / (2 * of_nat t) \<le> z + 1 / 2 - of_int m"
      using tpos by (simp add: field_simps)
    have "of_int m < y + 1 / 2" "y + 1 / 2 < of_int m + 1"
      using near lo up by (simp_all add: abs_less_iff)
    then have "\<lfloor>y + 1 / 2\<rfloor> = m" by linarith
    then show ?thesis unfolding m_def by simp
  qed
qed

lemma pow2_m47: "pow2 (- 47) = 1 / 140737488355328"
  by (simp add: pow2_def)

lemma fl_23_40: "fl (23 / 40) = Finite (5179139571476070 / 9007199254740992)"
proof -
  have b: "pow2 (- 1) \<le> 23 / 40" "(23 / 40 :: rat) < pow2 (- 1 + 1)"
    by (simp_all add: pow2_def)
  have r: "round_half_even (23 / 40 / pow2 (- 1 - 52)) = 5179139571476070"
    by (rule round_half_even_near) (simp_all add: pow2_m53)
  from fl_pos_eq(1)[OF b] have "fl_pos (23 / 40) = Finite (5179139571476070 / 9007199254740992)"
    unfolding r by (simp add: pow2_m53)
  then show ?thesis by (simp add: fl_def)
qed

lemma fl_23_40_times_100:
  "fl (5179139571476070 / 9007199254740992 * 100) = Finite (8092405580431359 / 140737488355328)"
proof -
  have b: "pow2 5 \<le> 5179139571476070 / 9007199254740992 * 100"
    "(5179139571476070 / 9007199254740992 * 100 :: rat) < pow2 (5 + 1)"
    by (simp_all add: pow2_def)
  have r: "round_half_even (5179139571476070 / 9007199254740992 * 100 / pow2 (5 - 52)) = 8092405580431359"
    by (rule round_half_even_near) (simp_all add: pow2_m47)
  from fl_pos_eq(1)[OF b]
  have "fl_pos (5179139571476070 / 9007199254740992 * 100) = Finite (8092405580431359 / 140737488355328)"
    unfolding r by (simp add: pow2_m47)
  then show ?thesis by (simp add: fl_def)
qed

lemma js_mul_Finite: "js_mul (Finite a) (Finite b) = fl (a * b)"
  by simp

lemma percentage_23_of_40:
  "Math_round (js_mul (js_div (of_count 23) (of_count 40)) (Finite 100)) = Finite 57"
proof -
  have c: "of_count 23 = Finite 23" "of_count 40 = Finite 40"
    using of_count_exact[of 23] of_count_exact[of 40] by simp_all
  have d: "js_div (of_count 23) (of_count 40) = fl (23 / 40)"
    by (simp add: c)
  have "js_mul (js_div (of_count 23) (of_count 40)) (Finite 100)
          = Finite (8092405580431359 / 140737488355328)"
    unfolding d fl_23_40 js_mul_Finite fl_23_40_times_100 ..
  moreover have "\<lfloor>(8092405580431359 / 140737488355328 :: rat) + 1 / 2\<rfloor> = 57"
    by (simp add: floor_eq_iff)
  ultimately show ?thesis by simp
qed

subsection \<open>Intent percentages\<close>

lemma set_insert_by: "set (insert_by later x ys) = insert x (set ys)"
  by (induction ys) auto

lemma sorted_insert_by:
  fixes f :: "'a \<Rightarrow> nat"
  assumes "sorted_wrt (\<lambda>x y. f y \<le> f x) ys"
  shows "sorted_wrt (\<lambda>x y. f y \<le> f x) (insert_by (\<lambda>x y. f x < f y) x ys)"
  using assms by (induction ys) (auto simp: set_insert_by)

lemma sorted_js_sort:
  fixes f :: "'a \<Rightarrow> nat"
  shows "sorted_wrt (\<lambda>x y. f y \<le> f x) (js_sort (\<lambda>x y. f x < f y) xs)"
  unfolding js_sort_def by (induction xs) (simp_all add: sorted_insert_by)

lemma processIntentData_sorted:
  "sorted_wrt (\<lambda>x y. value_i y \<le> value_i x) (processIntentData a)"
  by (cases "intent_distribution a") (simp_all add: processIntentData_def sorted_js_sort)

lemma processIntentData_value:
  assumes "intent_distribution a = Some entries" "e \<in> set (processIntentData a)"
  shows "\<exists>k. (k, value_i e) \<in> set entries"
  using assms by (auto simp: processIntentData_def set_js_sort)

lemma percentage_nonzero_total:
  assumes "0 < t" "t < 2 ^ 53" "c \<le> 2 ^ 43"
  shows "(frac (100 * of_nat c / of_nat t :: rat) \<noteq> 1 / 2 \<longrightarrow>
            Math_round (js_mul (js_div (of_count c) (of_count t)) (Finite 100))
              = Finite (of_int (round (100 * of_nat c / of_nat t :: rat))))
       \<and> (Math_round (js_mul (js_div (of_count c) (of_count t)) (Finite 100))
              = Finite (of_int (round (100 * of_nat c / of_nat t :: rat)))
          \<or> Math_round (js_mul (js_div (of_count c) (of_count t)) (Finite 100))
              = Finite (of_int (round (100 * of_nat c / of_nat t :: rat) - 1)))"
proof -
  from percent_product[OF assms] obtain y where
    y: "js_mul (js_div (of_count c) (of_count t)) (Finite 100) = Finite y"
       "\<bar>y - 100 * of_nat c / of_nat t\<bar> < 1 / (2 * of_nat t)"
    by blast
  from round_near_ratio[OF assms(1) refl y(2)]
  have A: "frac (100 * of_nat c / of_nat t :: rat) \<noteq> 1 / 2 \<longrightarrow>
             \<lfloor>y + 1 / 2\<rfloor> = \<lfloor>100 * of_nat c / of_nat t + 1 / 2 :: rat\<rfloor>"
    and B: "\<lfloor>y + 1 / 2\<rfloor> = \<lfloor>100 * of_nat c / of_nat t + 1 / 2 :: rat\<rfloor>
          \<or> \<lfloor>y + 1 / 2\<rfloor> = \<lfloor>100 * of_nat c / of_nat t + 1 / 2 :: rat\<rfloor> - 1"
    by blast+
  show ?thesis
    unfolding y(1) Math_round.simps round_def using A B by auto
qed

lemma percentage_zero_total:
  assumes "c \<le> 2 ^ 43"
  shows "Math_round (js_mul (js_div (of_count c) (of_count 0)) (Finite 100))
           = (if c = 0 then NaN else PosInfinity)"
proof -
  have "c < 2 ^ 53" using assms by (rule le_less_trans) simp
  then have "of_count c = Finite (of_nat c)" by (rule of_count_exact)
  moreover have "of_count 0 = Finite 0" using of_count_exact[of 0] by simp
  ultimately show ?thesis by simp
qed

text \<open>
  Claim C10, as the code has it. For a rollup whose total is below \<open>2^53\<close> and whose
  intent counts are at most \<open>2^43\<close>, \<open>processIntentData\<close> returns the intents sorted by
  descending count, each with its count. With a total that is not zero, the percentage of
  an intent is \<open>Math.round\<close> of the double \<open>(count / total) * 100\<close>: it is
  \<open>round (100 * count / total)\<close> whenever \<open>100 * count / total\<close> is not exactly halfway
  between two integers, and at such a half it is that value or one less. With a total of
  zero the division is not guarded: the percentage is \<open>Infinity\<close> for a positive count
  and \<open>NaN\<close> for a zero count.
\<close>

theorem intent_percentage_double:
  assumes "total_interactions a = Some t" and "intent_distribution a = Some entries"
    and "t < 2 ^ 53" and "\<forall>(k, c) \<in> set entries. c \<le> 2 ^ 43"
  shows "sorted_wrt (\<lambda>x y. value_i y \<le> value_i x) (processIntentData a)
       \<and> mset (map (\<lambda>e. (name_i e, value_i e)) (processIntentData a))
           = mset (map (\<lambda>(k, c). (display_name k, c)) entries)
       \<and> (0 < t \<longrightarrow>
            (\<forall>e \<in> set (processIntentData a).
               (frac (100 * of_nat (value_i e) / of_nat t :: rat) \<noteq> 1 / 2 \<longrightarrow>
                  percentage e = Finite (of_int (round (100 * of_nat (value_i e) / of_nat t :: rat))))
               \<and> (percentage e = Finite (of_int (round (100 * of_nat (value_i e) / of_nat t :: rat)))
                  \<or> percentage e
                      = Finite (of_int (round (100 * of_nat (value_i e) / of_nat t :: rat) - 1)))))
       \<and> (t = 0 \<longrightarrow>
            (\<forall>e \<in> set (processIntentData a).
               percentage e = (if value_i e = 0 then NaN else PosInfinity)))"
proof (intro conjI impI ballI)
  show "sorted_wrt (\<lambda>x y. value_i y \<le> value_i x) (processIntentData a)"
    by (rule processIntentData_sorted)
  show "mset (map (\<lambda>e. (name_i e, value_i e)) (processIntentData a))
           = mset (map (\<lambda>(k, c). (display_name k, c)) entries)"
    using assms(2) by (rule processIntentData_entries(1))
next
  fix e assume t: "0 < t" and e: "e \<in> set (processIntentData a)"
  from processIntentData_value[OF assms(2) e] assms(4) have c: "value_i e \<le> 2 ^ 43" by auto
  from processIntentData_entries(2)[OF assms(2)] e
  have p: "percentage e = Math_round (js_mul (js_div (of_count (value_i e)) (of_count t)) (Finite 100))"
    by (simp add: assms(1) of_count_opt_def)
  note n = percentage_nonzero_total[OF t assms(3) c, folded p]
  from n show "frac (100 * of_nat (value_i e) / of_nat t :: rat) \<noteq> 1 / 2 \<Longrightarrow>
                  percentage e = Finite (of_int (round (100 * of_nat (value_i e) / of_nat t :: rat)))"
    by blast
  from n show "percentage e = Finite (of_int (round (100 * of_nat (value_i e) / of_nat t :: rat)))
                  \<or> percentage e
                      = Finite (of_int (round (100 * of_nat (value_i e) / of_nat t :: rat) - 1))"
    by blast
next
  fix e assume t: "t = 0" and e: "e \<in> set (processIntentData a)"
  from processIntentData_value[OF assms(2) e] assms(4) have c: "value_i e \<le> 2 ^ 43" by auto
  from processIntentData_entries(2)[OF assms(2)] e
  have p: "percentage e = Math_round (js_mul (js_div (of_count (value_i e)) (of_count 0)) (Finite 100))"
    by (simp add: assms(1) of_count_opt_def t)
  show "percentage e = (if value_i e = 0 then NaN else PosInfinity)"
    unfolding p by (rule percentage_zero_total[OF c])
qed

theorem intent_percentage_double_witness:
  "sorted_wrt (\<lambda>x y. value_i y \<le> value_i x) (processIntentData
      \<lparr> total_interactions = Some 3, unique_sessions = Some 2, average_processing_time = None,
        intent_distribution = Some [(''greeting'', 1), (''tuition_fees'', 2)],
        channel_distribution = None, daily_interactions = None,
        average_confidence = None, entity_distribution = None \<rparr>)
   \<and> percentage (hd (processIntentData
      \<lparr> total_interactions = Some 3, unique_sessions = Some 2, average_processing_time = None,
        intent_distribution = Some [(''greeting'', 1), (''tuition_fees'', 2)],
        channel_distribution = None, daily_interactions = None,
        average_confidence = None, entity_distribution = None \<rparr>)) = Finite 67
   \<and> percentage (hd (processIntentData
      \<lparr> total_interactions = Some 0, unique_sessions = Some 2, average_processing_time = None,
        intent_distribution = Some [(''greeting'', 1), (''tuition_fees'', 2)],
        channel_distribution = None, daily_interactions = None,
        average_confidence = None, entity_distribution = None \<rparr>)) = PosInfinity"
proof -
  let ?entries = "[(''greeting'', 1 :: nat), (''tuition_fees'', 2)]"
  let ?a = "\<lparr> total_interactions = Some 3, unique_sessions = Some 2, average_processing_time = None,
        intent_distribution = Some ?entries,
        channel_distribution = None, daily_interactions = None,
        average_confidence = None, entity_distribution = None \<rparr>"
  let ?z = "\<lparr> total_interactions = Some 0, unique_sessions = Some 2, average_processing_time = None,
        intent_distribution = Some ?entries,
        channel_distribution = None, daily_interactions = None,
        average_confidence = None, entity_distribution = None \<rparr>"
  have h1: "total_interactions ?a = Some 3" "total_interactions ?z = Some 0" by simp_all
  have h2: "intent_distribution ?a = Some ?entries" "intent_distribution ?z = Some ?entries"
    by simp_all
  have h3: "(3 :: nat) < 2 ^ 53" "(0 :: nat) < 2 ^ 53" by simp_all
  have h4: "\<forall>(k, c) \<in> set ?entries. c \<le> 2 ^ 43" by simp
  note ta = intent_percentage_double[OF h1(1) h2(1) h3(1) h4]
  note tz = intent_percentage_double[OF h1(2) h2(2) h3(2) h4]
  have ma: "hd (processIntentData ?a) \<in> set (processIntentData ?a)"
    "value_i (hd (processIntentData ?a)) = 2"
    by (simp_all add: processIntentData_def js_sort_def)
  have mz: "hd (processIntentData ?z) \<in> set (processIntentData ?z)"
    "value_i (hd (processIntentData ?z)) = 2"
    by (simp_all add: processIntentData_def js_sort_def)
  have fl: "\<lfloor>200 / 3 :: rat\<rfloor> = 66" by (simp add: floor_eq_iff)
  have f: "frac (100 * of_nat 2 / of_nat 3 :: rat) \<noteq> 1 / 2"
    "round (100 * of_nat 2 / of_nat 3 :: rat) = 67"
    by (simp_all add: frac_def round_def fl floor_eq_iff)
  have pos: "0 < (3 :: nat)" by simp
  note ea = ta[THEN conjunct2, THEN conjunct2, THEN conjunct1, THEN mp, OF pos,
               THEN bspec, OF ma(1), THEN conjunct1]
  then have pa: "percentage (hd (processIntentData ?a)) = Finite 67"
    unfolding ma(2) using f by simp
  note ez = tz[THEN conjunct2, THEN conjunct2, THEN conjunct2, THEN mp, OF refl,
               THEN bspec, OF mz(1)]
  then have pz: "percentage (hd (processIntentData ?z)) = PosInfinity"
    unfolding mz(2) by simp
  note so = ta[THEN conjunct1]
  from so pa pz show ?thesis by (intro conjI)
qed

text \<open>
  The percentage is not always \<open>round (100 * count / total)\<close>. For 23 interactions of 40
  the quotient \<open>23 / 40\<close> is not a double; the nearest double lies just below \<open>0.575\<close>,
  its product with 100 rounds to the double \<open>57.49999999999999\<close>, and \<open>Math.round\<close> gives
  57, where \<open>round (57.5)\<close> is 58.
\<close>

theorem intent_percentage_double_counterexample:
  "total_interactions
      \<lparr> total_interactions = Some 40, unique_sessions = Some 12, average_processing_time = None,
        intent_distribution = Some [(''greeting'', 23), (''tuition_fees'', 17)],
        channel_distribution = None, daily_interactions = None,
        average_confidence = None, entity_distribution = None \<rparr> = Some 40
   \<and> value_i (hd (processIntentData
      \<lparr> total_interactions = Some 40, unique_sessions = Some 12, average_processing_time = None,
        intent_distribution = Some [(''greeting'', 23), (''tuition_fees'', 17)],
        channel_distribution = None, daily_interactions = None,
        average_confidence = None, entity_distribution = None \<rparr>)) = 23
   \<and> percentage (hd (processIntentData
      \<lparr> total_interactions = Some 40, unique_sessions = Some 12, average_processing_time = None,
        intent_distribution = Some [(''greeting'', 23), (''tuition_fees'', 17)],
        channel_distribution = None, daily_interactions = None,
        average_confidence = None, entity_distribution = None \<rparr>)) = Finite 57
   \<and> round (100 * 23 / 40 :: rat) = 58"
proof -
  have r: "round (100 * 23 / 40 :: rat) = 58"
    by (simp add: round_def floor_eq_iff)
  show ?thesis
    unfolding r
    by (simp add: processIntentData_def js_sort_def of_count_opt_def percentage_23_of_40)
qed

end
